theory Spec2Isabelle
  imports Main "HOL-Library.Sublist" "HOL-Library.Monad_Syntax" "HOL-Library.AList"
begin

section \<open>JavaScript strings and promises\<close>

text \<open>
  A JavaScript string is modelled as a \<^typ>\<open>string\<close>: one \<^typ>\<open>char\<close> per code unit.
  The string methods the sources call are written out on lists.
\<close>

definition startsWith :: "string \<Rightarrow> string \<Rightarrow> bool" where
  \<comment> \<open>\<open>s.startsWith(p)\<close>\<close>
  "startsWith s p = (take (length p) s = p)"

definition endsWith :: "string \<Rightarrow> string \<Rightarrow> bool" where
  \<comment> \<open>\<open>s.endsWith(p)\<close>\<close>
  "endsWith s p = (length p \<le> length s \<and> drop (length s - length p) s = p)"

definition slice_end :: "string \<Rightarrow> nat \<Rightarrow> string" where
  \<comment> \<open>\<open>s.slice(0, -n)\<close>: everything but the last \<open>n\<close> code units.\<close>
  "slice_end s n = take (length s - n) s"

definition slice_from :: "string \<Rightarrow> nat \<Rightarrow> string" where
  \<comment> \<open>\<open>s.slice(n)\<close> for a non-negative \<open>n\<close>.\<close>
  "slice_from s n = drop n s"

definition includes_char :: "string \<Rightarrow> char \<Rightarrow> bool" where
  \<comment> \<open>\<open>s.includes(c)\<close> for a one-character needle.\<close>
  "includes_char s c = (c \<in> set s)"

text \<open>
  The errors the sources throw, each with its message, and a settled promise: an
  \<open>async\<close> function either resolves with a value or rejects with an error.
\<close>

datatype js_error =
    Error string | TypeError string | SyntaxError string | ServletContainerException string

fun message :: "js_error \<Rightarrow> string" where
  "message (Error m) = m"
| "message (TypeError m) = m"
| "message (SyntaxError m) = m"
| "message (ServletContainerException m) = m"

datatype 'a promise = Resolved 'a | Rejected js_error

section \<open>Request and Response\<close>

text \<open>
  Of a request the dispatchers read the method and the path. A response body is kept
  as the document that was sent: a JSON body as the fields of the object it serialises
  (a timestamp field is left out).
\<close>

record Request =
  req_method :: string
  req_path :: string

datatype body = Text string | Json "(string \<times> string) list" | Html string

text \<open>
  The \<open>Response\<close> class: its own fields \<open>_statusCode\<close>, \<open>_headers\<close>, \<open>_headersSent\<close>, and
  the part of the wrapped \<open>ServerResponse\<close> it writes to and reads from. Ending a raw
  response flushes its headers and marks it finished; ending it again writes nothing.
\<close>

record Response =
  r_statusCode :: nat
  r_headers :: "(string \<times> string) list"
  r_headersSent :: bool
  raw_statusCode :: nat
  raw_headers :: "(string \<times> string) list"
  raw_body :: "body option"
  raw_headersSent :: bool
  raw_finished :: bool

definition newResponse :: Response where
  "newResponse =
     \<lparr> r_statusCode = 200, r_headers = [], r_headersSent = False,
       raw_statusCode = 200, raw_headers = [], raw_body = None,
       raw_headersSent = False, raw_finished = False \<rparr>"

definition lowerChar :: "char \<Rightarrow> char" where
  "lowerChar c =
     (case map_of (zip ''ABCDEFGHIJKLMNOPQRSTUVWXYZ'' ''abcdefghijklmnopqrstuvwxyz'') c of
        Some l \<Rightarrow> l
      | None \<Rightarrow> c)"

definition status :: "nat \<Rightarrow> Response \<Rightarrow> Response" where
  "status code r = r\<lparr>r_statusCode := code\<rparr>"

definition setHeader :: "string \<Rightarrow> string \<Rightarrow> Response \<Rightarrow> Response" where
  "setHeader name v r = r\<lparr>r_headers := AList.update (map lowerChar name) v (r_headers r)\<rparr>"

definition contentType :: "string \<Rightarrow> Response \<Rightarrow> Response" where
  "contentType type r = setHeader ''Content-Type'' type r"

definition headersSent :: "Response \<Rightarrow> bool" where
  "headersSent r = (r_headersSent r \<or> raw_headersSent r)"

definition finished :: "Response \<Rightarrow> bool" where
  "finished r = raw_finished r"

definition writeHeadersIfNeeded :: "Response \<Rightarrow> Response" where
  "writeHeadersIfNeeded r =
     (if r_headersSent r \<or> raw_headersSent r then r
      else r\<lparr> raw_statusCode := r_statusCode r,
              raw_headers := fold (\<lambda>(name, v). AList.update name v) (r_headers r) (raw_headers r),
              r_headersSent := True \<rparr>)"

definition raw_end :: "body \<Rightarrow> Response \<Rightarrow> Response" where
  "raw_end b r =
     (if raw_finished r then r
      else r\<lparr> raw_body := Some b, raw_headersSent := True, raw_finished := True \<rparr>)"

definition send :: "body \<Rightarrow> Response \<Rightarrow> Response" where
  "send b r = raw_end b (writeHeadersIfNeeded r)"

definition send_json :: "(string \<times> string) list \<Rightarrow> Response \<Rightarrow> Response" where
  \<comment> \<open>\<open>response.json(data)\<close>\<close>
  "send_json d r = send (Json d) (contentType ''application/json; charset=utf-8'' r)"

definition send_text :: "string \<Rightarrow> Response \<Rightarrow> Response" where
  \<comment> \<open>\<open>response.text(text)\<close>\<close>
  "send_text t r = send (Text t) (contentType ''text/plain; charset=utf-8'' r)"

definition send_html :: "string \<Rightarrow> Response \<Rightarrow> Response" where
  \<comment> \<open>\<open>response.html(html)\<close>\<close>
  "send_html h r = send (Html h) (contentType ''text/html; charset=utf-8'' r)"

text \<open>
  What user code (a route handler, a middleware, a servlet's \<open>service\<close>) does to the
  response: \<open>Respond code t\<close> is \<open>response.status(code).text(t)\<close>, \<open>Raise m\<close> is
  \<open>throw new Error(m)\<close>. A script runs until it ends or raises.
\<close>

datatype effect = Respond nat string | Raise string

fun run_effects :: "effect list \<Rightarrow> Response \<Rightarrow> unit promise \<times> Response" where
  "run_effects [] r = (Resolved (), r)"
| "run_effects (Respond code t # es) r = run_effects es (send_text t (status code r))"
| "run_effects (Raise m # es) r = (Rejected (Error m), r)"

section \<open>ServletContainer\<close>

record ServletConfig =
  servletName :: string
  initParameters :: "(string \<times> string) list"

text \<open>
  A servlet object: the \<open>config\<close> field of \<open>GenericServlet\<close>, and what the methods a
  subclass supplies do: \<open>initServlet\<close> and \<open>destroy\<close> return or throw an error with
  the given message, \<open>service\<close> runs a script on the response.
\<close>

record Servlet =
  sv_config :: "ServletConfig option"
  initServlet_throws :: "string option"
  destroy_throws :: "string option"
  service_script :: "Request \<Rightarrow> effect list"

text \<open>
  A mapping refers to its servlet by the servlet's address in the store of servlet
  objects. The dates \<open>createdAt\<close> and \<open>lastAccessed\<close> are left out.
\<close>

record ServletMapping =
  urlPattern :: string
  servlet :: nat
  config :: ServletConfig
  loadOnStartup :: "int option"
  requestCount :: nat

text \<open>
  The two \<open>Map\<close>s of the container are association lists in insertion order, each key
  once. Both maps hold the same mapping object for a servlet, so a change of the object
  is written to both.
\<close>

record ServletContainer =
  servletMappings :: "(string \<times> ServletMapping) list"
  servletsByName :: "(string \<times> ServletMapping) list"
  isStarted :: bool
  totalRequests :: nat

text \<open>
  The calls the container makes on servlets are recorded: \<open>Init\<close> when \<open>init\<close> is
  called, \<open>Service\<close> when \<open>service\<close> is called, \<open>Destroyed\<close> when \<open>destroy\<close> has
  returned without throwing.
\<close>

datatype lifecycle_event = Init nat | Service nat | Destroyed nat

record world =
  container :: ServletContainer
  servlets :: "nat \<Rightarrow> Servlet"
  events :: "lifecycle_event list"

definition newContainer :: ServletContainer where
  "newContainer =
     \<lparr> servletMappings = [], servletsByName = [], isStarted = False, totalRequests = 0 \<rparr>"

definition map_has :: "('k \<times> 'v) list \<Rightarrow> 'k \<Rightarrow> bool" where
  "map_has m k = (map_of m k \<noteq> None)"

text \<open>\<open>GenericServlet.init\<close>: the configuration is stored before \<open>initServlet\<close> runs.\<close>

definition servlet_init :: "nat \<Rightarrow> ServletConfig \<Rightarrow> world \<Rightarrow> unit promise \<times> world" where
  "servlet_init a cfg w =
     (let sv = servlets w a;
          w1 = w\<lparr> servlets := (servlets w)(a := sv\<lparr>sv_config := Some cfg\<rparr>),
                  events := events w @ [Init a] \<rparr>
      in case initServlet_throws sv of
           None \<Rightarrow> (Resolved (), w1)
         | Some m \<Rightarrow> (Rejected (Error m), w1))"

definition servlet_destroy :: "nat \<Rightarrow> world \<Rightarrow> unit promise \<times> world" where
  "servlet_destroy a w =
     (case destroy_throws (servlets w a) of
        None \<Rightarrow> (Resolved (), w\<lparr>events := events w @ [Destroyed a]\<rparr>)
      | Some m \<Rightarrow> (Rejected (Error m), w))"

definition servlet_service ::
  "nat \<Rightarrow> Request \<Rightarrow> world \<Rightarrow> Response \<Rightarrow> unit promise \<times> world \<times> Response" where
  "servlet_service a request w response =
     (case run_effects (service_script (servlets w a) request) response of
        (r, response') \<Rightarrow> (r, w\<lparr>events := events w @ [Service a]\<rparr>, response'))"

definition initializeServlet :: "ServletMapping \<Rightarrow> world \<Rightarrow> unit promise \<times> world" where
  "initializeServlet mapping w =
     (case servlet_init (servlet mapping) (config mapping) w of
        (Resolved u, w1) \<Rightarrow> (Resolved (), w1)
      | (Rejected e, w1) \<Rightarrow>
          (Rejected (ServletContainerException
             (''Servlet initialization failed: '' @ servletName (config mapping))), w1))"

definition isServletInitialized :: "ServletMapping \<Rightarrow> world \<Rightarrow> bool" where
  "isServletInitialized mapping w = (sv_config (servlets w (servlet mapping)) \<noteq> None)"

fun initializeAll :: "ServletMapping list \<Rightarrow> world \<Rightarrow> unit promise \<times> world" where
  "initializeAll [] w = (Resolved (), w)"
| "initializeAll (mapping # ms) w =
     (case initializeServlet mapping w of
        (Resolved u, w1) \<Rightarrow> initializeAll ms w1
      | (Rejected e, w1) \<Rightarrow> (Rejected e, w1))"

definition start :: "world \<Rightarrow> unit promise \<times> world" where
  "start w =
     (if isStarted (container w) then
        (Rejected (ServletContainerException ''Container is already started''), w)
      else
        (let startupServlets =
               sort_key (\<lambda>mapping. case loadOnStartup mapping of Some n \<Rightarrow> n | None \<Rightarrow> 0)
                 (filter (\<lambda>mapping. loadOnStartup mapping \<noteq> None)
                    (map snd (servletMappings (container w))))
         in case initializeAll startupServlets w of
              (Resolved u, w1) \<Rightarrow>
                (Resolved (), w1\<lparr>container := (container w1)\<lparr>isStarted := True\<rparr>\<rparr>)
            | (Rejected e, w1) \<Rightarrow>
                (Rejected (ServletContainerException ''Container startup failed''), w1)))"

fun destroyAll :: "ServletMapping list \<Rightarrow> world \<Rightarrow> world" where
  "destroyAll [] w = w"
| "destroyAll (mapping # ms) w = destroyAll ms (snd (servlet_destroy (servlet mapping) w))"

definition stop :: "world \<Rightarrow> unit promise \<times> world" where
  "stop w =
     (if isStarted (container w) then
        (let w1 = destroyAll (map snd (servletMappings (container w))) w
         in (Resolved (), w1\<lparr>container := (container w1)\<lparr>isStarted := False\<rparr>\<rparr>))
      else (Resolved (), w))"

definition registerServlet ::
  "string \<Rightarrow> nat \<Rightarrow> ServletConfig \<Rightarrow> int option \<Rightarrow> world \<Rightarrow> unit promise \<times> world" where
  "registerServlet pat a cfg los w =
     (if map_has (servletMappings (container w)) pat then
        (Rejected (ServletContainerException
           (''Servlet already mapped to URL pattern: '' @ pat)), w)
      else if map_has (servletsByName (container w)) (servletName cfg) then
        (Rejected (ServletContainerException
           (''Servlet name already exists: '' @ servletName cfg)), w)
      else
        (let mapping = \<lparr> urlPattern = pat, servlet = a, config = cfg,
                         loadOnStartup = los, requestCount = 0 \<rparr>;
             c = container w;
             w1 = w\<lparr>container := c
                    \<lparr> servletMappings := AList.update pat mapping (servletMappings c),
                      servletsByName :=
                        AList.update (servletName cfg) mapping (servletsByName c) \<rparr>\<rparr>
         in if isStarted c then initializeServlet mapping w1 else (Resolved (), w1)))"

definition unregisterServlet :: "string \<Rightarrow> world \<Rightarrow> unit promise \<times> world" where
  "unregisterServlet pat w =
     (case map_of (servletMappings (container w)) pat of
        None \<Rightarrow>
          (Rejected (ServletContainerException
             (''No servlet mapped to URL pattern: '' @ pat)), w)
      | Some mapping \<Rightarrow>
          (case servlet_destroy (servlet mapping) w of
             (Resolved u, w1) \<Rightarrow>
               (let c = container w1
                in (Resolved (),
                    w1\<lparr>container := c
                      \<lparr> servletMappings := AList.delete pat (servletMappings c),
                        servletsByName :=
                          AList.delete (servletName (config mapping)) (servletsByName c) \<rparr>\<rparr>))
           | (Rejected e, w1) \<Rightarrow>
               (Rejected (ServletContainerException
                  (''Failed to unregister servlet: '' @ pat)), w1)))"

definition findMatchingServlet ::
  "(string \<times> ServletMapping) list \<Rightarrow> string \<Rightarrow> ServletMapping option" where
  "findMatchingServlet maps requestPath =
     (case find (\<lambda>(pat, mapping). requestPath = pat) maps of
        Some (pat, mapping) \<Rightarrow> Some mapping
      | None \<Rightarrow>
          (let prefixMatches = filter (\<lambda>(pat, mapping). startsWith requestPath pat) maps
           in if length prefixMatches > 0 then
                Some (snd (hd (sort_key (\<lambda>(pat, mapping). - int (length pat)) prefixMatches)))
              else None))"

text \<open>
  The \<open>try\<close> block of \<open>handleRequest\<close> and its \<open>catch\<close>, for the mapping that was
  selected. The counters are those of the mapping object, which both maps hold.
\<close>

definition serveMapping ::
  "ServletMapping \<Rightarrow> Request \<Rightarrow> world \<Rightarrow> Response \<Rightarrow> bool promise \<times> world \<times> Response" where
  "serveMapping matchedMapping request w response =
     (let c = container w;
          bump = (\<lambda>mapping. mapping\<lparr>requestCount := requestCount mapping + 1\<rparr>);
          w1 = w\<lparr>container := c
                 \<lparr> servletMappings :=
                     AList.map_entry (urlPattern matchedMapping) bump (servletMappings c),
                   servletsByName :=
                     AList.map_entry (servletName (config matchedMapping)) bump
                       (servletsByName c),
                   totalRequests := totalRequests c + 1 \<rparr>\<rparr>;
          (initialized, w2) =
             (if isServletInitialized matchedMapping w1 then (Resolved (), w1)
              else initializeServlet matchedMapping w1);
          (served, w3, response1) =
             (case initialized of
                Rejected e \<Rightarrow> (Rejected e, w2, response)
              | Resolved u \<Rightarrow> servlet_service (servlet matchedMapping) request w2 response)
      in case served of
           Resolved u \<Rightarrow> (Resolved True, w3, response1)
         | Rejected e \<Rightarrow>
             (Resolved True, w3,
              if headersSent response1 then response1
              else send_json
                     [(''error'', ''Servlet Error''), (''message'', message e),
                      (''servlet'', servletName (config matchedMapping))]
                     (status 500 response1)))"

definition handleRequest ::
  "Request \<Rightarrow> world \<Rightarrow> Response \<Rightarrow> bool promise \<times> world \<times> Response" where
  "handleRequest request w response =
     (if isStarted (container w) then
        (case findMatchingServlet (servletMappings (container w)) (req_path request) of
           None \<Rightarrow> (Resolved False, w, response)
         | Some matchedMapping \<Rightarrow> serveMapping matchedMapping request w response)
      else (Rejected (ServletContainerException ''Container is not started''), w, response))"

subsection \<open>Example containers\<close>

definition okServlet :: Servlet where
  "okServlet =
     \<lparr> sv_config = None, initServlet_throws = None, destroy_throws = None,
       service_script = (\<lambda>request. [Respond 200 ''ok'']) \<rparr>"

definition failingDestroyServlet :: Servlet where
  "failingDestroyServlet = okServlet\<lparr>destroy_throws := Some ''cannot release''\<rparr>"

definition world0 :: world where
  "world0 = \<lparr> container = newContainer, servlets = (\<lambda>a. okServlet), events = [] \<rparr>"

definition cfg :: "string \<Rightarrow> ServletConfig" where
  "cfg name = \<lparr> servletName = name, initParameters = [] \<rparr>"

definition GET :: "string \<Rightarrow> Request" where
  "GET p = \<lparr> req_method = ''GET'', req_path = p \<rparr>"

text \<open>Servlets at \<open>/a\<close> and \<open>/a/b\<close>, registered lazily, in a started container.\<close>

definition world_ab :: world where
  "world_ab =
     snd (start (snd (registerServlet ''/a/b'' 1 (cfg ''AB'') None
       (snd (registerServlet ''/a'' 0 (cfg ''A'') None world0)))))"

text \<open>A servlet at \<open>/servlet/hello\<close> whose \<open>destroy\<close> throws, in a started container.\<close>

definition world_hello :: world where
  "world_hello =
     snd (start (snd (registerServlet ''/servlet/hello'' 0 (cfg ''hello'') None
       (world0\<lparr>servlets := (\<lambda>a. failingDestroyServlet)\<rparr>))))"

text \<open>
  A lazily registered servlet at \<open>/a\<close>: the container is started, serves a request to
  \<open>/a\<close>, is stopped and started again.
\<close>

definition world_restarted :: world where
  "world_restarted =
     snd (start (snd (stop (fst (snd (handleRequest (GET ''/a'')
       (snd (start (snd (registerServlet ''/a'' 0 (cfg ''A'') None world0))))
       newResponse))))))"

section \<open>SpringBridge\<close>

subsection \<open>Path matching\<close>

text \<open>\<open>SpringBridge.matchPath(pattern, path)\<close>, branch by branch.\<close>

definition matchPath :: "string \<Rightarrow> string \<Rightarrow> bool" where
  "matchPath pattern path =
     (if pattern = path then True
      else if endsWith pattern ''/**'' then
        (let basePath = slice_end pattern 3 in startsWith path basePath)
      else if endsWith pattern ''/*'' then
        (let basePath = slice_end pattern 2;
             remainingPath = slice_from path (length basePath)
         in startsWith path basePath \<and> \<not> includes_char remainingPath (CHR ''/''))
      else False)"

subsection \<open>Health probe\<close>

text \<open>
  What \<open>http.get\<close> reports for the probe request: a response with its status code, an
  \<open>error\<close> event or a \<open>timeout\<close> event. The URL is built from the configuration and is
  taken to be well formed.
\<close>

datatype http_get_outcome = GotResponse nat | ErrorEvent | TimeoutEvent

definition checkSpringHealth :: "http_get_outcome \<Rightarrow> bool promise" where
  "checkSpringHealth outcome =
     (case outcome of
        GotResponse statusCode \<Rightarrow> Resolved (statusCode = 200)
      | ErrorEvent \<Rightarrow> Resolved False
      | TimeoutEvent \<Rightarrow> Resolved False)"

subsection \<open>Route metadata\<close>

text \<open>
  The values \<open>JSON.parse\<close> returns, with \<open>undefined\<close> added for absent properties.
  An object lists its own properties in enumeration order, each key once. Of a number
  only its being zero or not is observed, so it is an integer here.
\<close>

datatype jsvalue =
    JUndefined | JNull | JBool bool | JNum int | JStr string
  | JArr "jsvalue list" | JObj "(string \<times> jsvalue) list"

fun truthy :: "jsvalue \<Rightarrow> bool" where
  "truthy JUndefined = False"
| "truthy JNull = False"
| "truthy (JBool b) = b"
| "truthy (JNum n) = (n \<noteq> 0)"
| "truthy (JStr s) = (s \<noteq> [])"
| "truthy (JArr xs) = True"
| "truthy (JObj kvs) = True"

definition js_or :: "jsvalue \<Rightarrow> jsvalue \<Rightarrow> jsvalue" where
  \<comment> \<open>\<open>a || b\<close>\<close>
  "js_or a b = (if truthy a then a else b)"

text \<open>
  In the functions below \<open>None\<close> is a thrown \<open>TypeError\<close>. Reading a property of
  \<open>undefined\<close> or \<open>null\<close> throws; reading an absent property gives \<open>undefined\<close>. None
  of the property names read by the bridge is inherited from a prototype.
\<close>

fun getProp :: "jsvalue \<Rightarrow> string \<Rightarrow> jsvalue option" where
  "getProp JUndefined k = None"
| "getProp JNull k = None"
| "getProp (JObj kvs) k = (case map_of kvs k of None \<Rightarrow> Some JUndefined | Some v \<Rightarrow> Some v)"
| "getProp v k = Some JUndefined"

fun optChain :: "jsvalue \<Rightarrow> string \<Rightarrow> jsvalue option" where
  \<comment> \<open>\<open>v?.k\<close>\<close>
  "optChain JUndefined k = Some JUndefined"
| "optChain JNull k = Some JUndefined"
| "optChain v k = getProp v k"

fun isArray :: "jsvalue \<Rightarrow> bool" where
  "isArray (JArr xs) = True"
| "isArray v = False"

fun objectValues :: "jsvalue \<Rightarrow> jsvalue list option" where
  \<comment> \<open>\<open>Object.values(v)\<close>\<close>
  "objectValues JUndefined = None"
| "objectValues JNull = None"
| "objectValues (JObj kvs) = Some (map snd kvs)"
| "objectValues (JArr xs) = Some xs"
| "objectValues (JStr s) = Some (map (\<lambda>c. JStr [c]) s)"
| "objectValues v = Some []"

definition forEach :: "jsvalue \<Rightarrow> (jsvalue \<Rightarrow> 'a list option) \<Rightarrow> 'a list option" where
  \<comment> \<open>\<open>arr.forEach(f)\<close>, where \<open>f\<close> pushes entries onto the result list; only an array
      has a \<open>forEach\<close> method.\<close>
  "forEach arr f =
     (case arr of JArr xs \<Rightarrow> map_option concat (those (map f xs)) | _ \<Rightarrow> None)"

definition upperChar :: "char \<Rightarrow> char" where
  "upperChar c =
     (case map_of (zip ''abcdefghijklmnopqrstuvwxyz'' ''ABCDEFGHIJKLMNOPQRSTUVWXYZ'') c of
        Some u \<Rightarrow> u
      | None \<Rightarrow> c)"

fun toUpperCase :: "jsvalue \<Rightarrow> string option" where
  \<comment> \<open>\<open>v.toUpperCase()\<close>, on ASCII letters; only a string has the method.\<close>
  "toUpperCase (JStr s) = Some (map upperChar s)"
| "toUpperCase v = None"

record SpringMapping =
  sm_path :: jsvalue
  sm_method :: string
  sm_produces :: jsvalue
  sm_consumes :: jsvalue
  sm_className :: jsvalue
  sm_methodName :: jsvalue

record SpringMetadata =
  mappings :: "SpringMapping list"
  contextPath :: string
  port :: nat
  profiles :: "string list"
  properties :: "(string \<times> string) list"

record SpringBridgeConfig =
  springHost :: string
  springPort :: nat
  springContextPath :: string
  healthCheckPath :: string
  metadataPath :: string
  timeout :: nat
  retryAttempts :: nat
  retryDelay :: nat

record SpringBridge =
  bridgeConfig :: SpringBridgeConfig
  springMetadata :: "SpringMetadata option"
  isSpringReady :: bool
  healthCheckInterval :: bool

record http_response =
  statusCode :: nat
  headers :: "(string \<times> string) list"
  body :: string

text \<open>The entries one element of a dispatcher servlet's array contributes.\<close>

definition mappingEntries :: "jsvalue \<Rightarrow> SpringMapping list option" where
  "mappingEntries mapping = do {
     details \<leftarrow> getProp mapping ''details'';
     if truthy details then do {
       conditions \<leftarrow> getProp details ''requestMappingConditions'';
       if truthy conditions then do {
         ms \<leftarrow> getProp conditions ''methods'';
         ps \<leftarrow> getProp conditions ''patterns'';
         forEach (js_or ms (JArr [JStr ''GET''])) (\<lambda>method.
           forEach (js_or ps (JArr [JStr ''/''])) (\<lambda>pattern. do {
             m \<leftarrow> toUpperCase method;
             produces \<leftarrow> getProp conditions ''produces'';
             consumes \<leftarrow> getProp conditions ''consumes'';
             handlerMethod \<leftarrow> getProp details ''handlerMethod'';
             className \<leftarrow> optChain handlerMethod ''className'';
             name \<leftarrow> optChain handlerMethod ''name'';
             Some [\<lparr> sm_path = pattern, sm_method = m,
                     sm_produces = js_or produces (JArr []),
                     sm_consumes = js_or consumes (JArr []),
                     sm_className = js_or className (JStr ''Unknown''),
                     sm_methodName = js_or name (JStr ''unknown'') \<rparr>]
           }))
       } else Some []
     } else Some []
   }"

definition servletEntries :: "jsvalue \<Rightarrow> SpringMapping list option" where
  "servletEntries dispatcherServlet =
     (if truthy dispatcherServlet \<and> isArray dispatcherServlet
      then forEach dispatcherServlet mappingEntries else Some [])"

text \<open>The parsing of the Actuator document, lines 158 to 187 of the bridge.\<close>

definition extractMappings :: "jsvalue \<Rightarrow> SpringMapping list option" where
  "extractMappings data = do {
     contexts \<leftarrow> getProp data ''contexts'';
     if truthy contexts then do {
       application \<leftarrow> getProp contexts ''application'';
       if truthy application then do {
         ms \<leftarrow> getProp application ''mappings'';
         if truthy ms then do {
           ds \<leftarrow> getProp ms ''dispatcherServlets'';
           vs \<leftarrow> objectValues (js_or ds (JObj []));
           map_option concat (those (map servletEntries vs))
         } else Some []
       } else Some []
     } else Some []
   }"

text \<open>
  The upstream as the bridge sees it during one operation: how a GET of a URL ends
  (\<open>get_outcome\<close>, by host, port and path), how a request of \<open>makeHttpRequest\<close> settles
  (\<open>respond\<close>, by method and path: rejected on a transport error or a timeout), and the
  requests that were sent, in order. Sending a request is the only way to learn its
  answer.
\<close>

datatype http_call = HttpGet string nat string | HttpRequest string string

record network =
  get_outcome :: "string \<Rightarrow> nat \<Rightarrow> string \<Rightarrow> http_get_outcome"
  respond :: "string \<Rightarrow> string \<Rightarrow> http_response promise"
  sent :: "http_call list"

definition httpGet :: "string \<Rightarrow> nat \<Rightarrow> string \<Rightarrow> network \<Rightarrow> http_get_outcome \<times> network" where
  \<comment> \<open>\<open>http.get(`http://${host}:${port}${path}`, ...)\<close>\<close>
  "httpGet host p pth net =
     (get_outcome net host p pth, net\<lparr>sent := sent net @ [HttpGet host p pth]\<rparr>)"

definition makeHttpRequest ::
  "string \<Rightarrow> string \<Rightarrow> network \<Rightarrow> http_response promise \<times> network" where
  \<comment> \<open>one request to the configured host and port, with the method in upper case\<close>
  "makeHttpRequest m pth net =
     (respond net (map upperChar m) pth,
      net\<lparr>sent := sent net @ [HttpRequest (map upperChar m) pth]\<rparr>)"

text \<open>
  The call \<open>this.checkSpringHealth()\<close>: the GET of the health URL, and what
  \<open>checkSpringHealth\<close> resolves to on its outcome.
\<close>

definition probeHealth :: "SpringBridge \<Rightarrow> network \<Rightarrow> bool promise \<times> network" where
  "probeHealth b net =
     (case httpGet (springHost (bridgeConfig b)) (springPort (bridgeConfig b))
             (healthCheckPath (bridgeConfig b)) net of
        (outcome, net1) \<Rightarrow> (checkSpringHealth outcome, net1))"

text \<open>
  \<open>loadSpringMetadata\<close>. \<open>JSON.parse\<close> is a parameter (\<open>None\<close> is its \<open>SyntaxError\<close>).
  The function rethrows whatever its \<open>try\<close> block throws; the snapshot is assigned
  after the document has been parsed.
\<close>

definition loadSpringMetadata ::
  "(string \<Rightarrow> jsvalue option) \<Rightarrow> SpringBridge \<Rightarrow> network
     \<Rightarrow> unit promise \<times> SpringBridge \<times> network" where
  "loadSpringMetadata JSON_parse b net =
     (case makeHttpRequest ''GET'' (metadataPath (bridgeConfig b)) net of
        (Rejected e, net1) \<Rightarrow> (Rejected e, b, net1)
      | (Resolved response, net1) \<Rightarrow>
          (case JSON_parse (body response) of
             None \<Rightarrow> (Rejected (SyntaxError ''JSON.parse''), b, net1)
           | Some data \<Rightarrow>
               (case extractMappings data of
                  None \<Rightarrow> (Rejected (TypeError ''extractMappings''), b, net1)
                | Some ms \<Rightarrow>
                    (Resolved (),
                     b\<lparr>springMetadata := Some
                         \<lparr> mappings = ms,
                           contextPath = springContextPath (bridgeConfig b),
                           port = springPort (bridgeConfig b),
                           profiles = [],
                           properties = [] \<rparr>\<rparr>,
                     net1))))"

text \<open>
  One tick of the timer started by \<open>startHealthCheck\<close>: the new state of the bridge,
  and the network with the requests the tick sent.
\<close>

definition healthCheckTick ::
  "(string \<Rightarrow> jsvalue option) \<Rightarrow> SpringBridge \<Rightarrow> network \<Rightarrow> SpringBridge \<times> network" where
  "healthCheckTick JSON_parse b net =
     (case probeHealth b net of
        (Rejected e, net1) \<Rightarrow> (b, net1)
      | (Resolved isHealthy, net1) \<Rightarrow>
          (if isSpringReady b \<noteq> isHealthy then
             (let b1 = b\<lparr>isSpringReady := isHealthy\<rparr> in
              if isHealthy then
                (case loadSpringMetadata JSON_parse b1 net1 of (r, b2, net2) \<Rightarrow> (b2, net2))
              else (b1, net1))
           else (b, net1)))"

text \<open>
  For the statements about a tick: how the probe of the bridge's health URL ends, how
  the request for the bridge's metadata path settles, and the snapshot that
  \<open>loadSpringMetadata\<close> stores for a list of mappings.
\<close>

definition healthOutcome :: "SpringBridge \<Rightarrow> network \<Rightarrow> http_get_outcome" where
  "healthOutcome b net =
     get_outcome net (springHost (bridgeConfig b)) (springPort (bridgeConfig b))
       (healthCheckPath (bridgeConfig b))"

definition metadataAnswer :: "SpringBridge \<Rightarrow> network \<Rightarrow> http_response promise" where
  "metadataAnswer b net = respond net ''GET'' (metadataPath (bridgeConfig b))"

definition snapshotOf :: "SpringBridge \<Rightarrow> SpringMapping list \<Rightarrow> SpringMetadata" where
  "snapshotOf b ms =
     \<lparr> mappings = ms, contextPath = springContextPath (bridgeConfig b),
       port = springPort (bridgeConfig b), profiles = [], properties = [] \<rparr>"

definition healthGet :: "SpringBridge \<Rightarrow> http_call" where
  "healthGet b =
     HttpGet (springHost (bridgeConfig b)) (springPort (bridgeConfig b))
       (healthCheckPath (bridgeConfig b))"

definition metadataRequest :: "SpringBridge \<Rightarrow> http_call" where
  "metadataRequest b = HttpRequest ''GET'' (metadataPath (bridgeConfig b))"

text \<open>A bridge marked unreachable that holds a snapshot of one route.\<close>

definition bridge0 :: SpringBridge where
  "bridge0 =
     \<lparr> bridgeConfig =
         \<lparr> springHost = ''localhost'', springPort = 8081, springContextPath = [],
           healthCheckPath = ''/actuator/health'', metadataPath = ''/actuator/mappings'',
           timeout = 30000, retryAttempts = 3, retryDelay = 1000 \<rparr>,
       springMetadata = Some
         \<lparr> mappings =
             [\<lparr> sm_path = JStr ''/api/users'', sm_method = ''GET'', sm_produces = JArr [],
                sm_consumes = JArr [], sm_className = JStr ''UserController'',
                sm_methodName = JStr ''list'' \<rparr>],
           contextPath = [], port = 8081, profiles = [], properties = [] \<rparr>,
       isSpringReady = False,
       healthCheckInterval = True \<rparr>"

text \<open>
  An Actuator document that declares one route, the text it is parsed from (any text
  would do), and three upstreams: one that is down, one that is up and answers the
  metadata request with that text, one that is up and refuses the metadata request.
\<close>

definition mappingsDoc :: jsvalue where
  "mappingsDoc =
     JObj [(''contexts'', JObj [(''application'', JObj [(''mappings'', JObj
       [(''dispatcherServlets'', JObj [(''dispatcherServlet'', JArr
          [JObj [(''details'', JObj
             [(''handlerMethod'', JObj [(''className'', JStr ''OrderController''),
                                         (''name'', JStr ''byId'')]),
              (''requestMappingConditions'', JObj
                 [(''methods'', JArr [JStr ''get'']),
                  (''patterns'', JArr [JStr ''/api/orders/{id}''])])])]])])])])])]"

definition parseDoc :: "string \<Rightarrow> jsvalue option" where
  "parseDoc s = (if s = ''mappings document'' then Some mappingsDoc else None)"

definition netDown :: network where
  "netDown =
     \<lparr> get_outcome = (\<lambda>host p pth. ErrorEvent),
       respond = (\<lambda>m pth. Rejected (Error ''ECONNREFUSED'')),
       sent = [] \<rparr>"

definition netUp :: network where
  "netUp =
     \<lparr> get_outcome = (\<lambda>host p pth. GotResponse 200),
       respond = (\<lambda>m pth. Resolved \<lparr> statusCode = 200, headers = [],
                                         body = ''mappings document'' \<rparr>),
       sent = [] \<rparr>"

definition netUpNoMetadata :: network where
  "netUpNoMetadata = netUp\<lparr>respond := (\<lambda>m pth. Rejected (Error ''Request timeout''))\<rparr>"

section \<open>Route\<close>

subsection \<open>Regular expressions\<close>

text \<open>
  \<open>RegExp\<close> is built into the language, so the regular expression engine is a
  parameter of the model: \<open>compile\<close> is \<open>new RegExp(source)\<close>, which returns an
  expression or throws a \<open>SyntaxError\<close>, and \<open>exec\<close> is \<open>expression.exec(s)\<close> for an
  expression without flags: \<open>None\<close> for \<open>null\<close>, otherwise the captures of the groups
  1, 2, ... in order, where \<open>None\<close> is the \<open>undefined\<close> of a group that took no part in
  the match. What is proved for every engine holds for every template, whatever
  characters it contains.
\<close>

record 're RegExpEngine =
  compile :: "string \<Rightarrow> js_error + 're"
  exec :: "'re \<Rightarrow> string \<Rightarrow> string option list option"

text \<open>
  To evaluate the code on concrete templates, the behaviour of every engine is written
  out for the sources that are anchored, \<open>^...$\<close>, around a sequence of
  \<^item> the escaped separator \<open>\/\<close>,
  \<^item> the capturing group \<open>([^\/]+)\<close>: one or more characters other than \<open>/\<close>,
  \<^item> single characters that have no special meaning in a regular expression.
  \<open>compileRx\<close> reads such a sequence; \<open>None\<close> means that the source is not of this
  form, and says nothing about what an engine does with it.
\<close>

datatype rx = Lit char | Seg

definition backslash :: char where
  "backslash = CHR 0x5C"

definition groupSource :: string where
  \<comment> \<open>the JavaScript string literal \<open>'([^\\/]+)'\<close>\<close>
  "groupSource = ''([^'' @ [backslash] @ ''/]+)''"

definition metaChars :: "char list" where
  "metaChars = backslash # ''^$.|?*+()[]{}''"

function compileRx :: "string \<Rightarrow> rx list option" where
  "compileRx s =
     (if s = [] then Some []
      else if take 8 s = groupSource then map_option ((#) Seg) (compileRx (drop 8 s))
      else if take 2 s = [backslash, CHR ''/''] then
        map_option ((#) (Lit (CHR ''/''))) (compileRx (drop 2 s))
      else if hd s \<in> set metaChars then None
      else map_option ((#) (Lit (hd s))) (compileRx (tl s)))"
  by pat_completeness auto
termination
  by (relation "measure length") auto

definition fragmentRx :: "string \<Rightarrow> rx list option" where
  \<comment> \<open>a source of the form \<open>^...$\<close> around a sequence that \<open>compileRx\<close> reads\<close>
  "fragmentRx source =
     (if 2 \<le> length source \<and> hd source = CHR ''^'' \<and> last source = CHR ''$''
      then compileRx (butlast (tl source)) else None)"

fun first_some :: "('a \<Rightarrow> 'b option) \<Rightarrow> 'a list \<Rightarrow> 'b option" where
  "first_some f [] = None"
| "first_some f (x # xs) = (case f x of Some y \<Rightarrow> Some y | None \<Rightarrow> first_some f xs)"

text \<open>
  \<open>exec\<close> for such an expression, anchored at both ends: the captured groups of the
  first match in backtracking order (a group tries its longest extent first), \<open>None\<close>
  when there is no match.
\<close>

primrec rx_exec :: "rx list \<Rightarrow> string \<Rightarrow> string list option" where
  "rx_exec [] s = (if s = [] then Some [] else None)"
| "rx_exec (r # rs) s =
     (case r of
        Lit c \<Rightarrow>
          (case s of
             [] \<Rightarrow> None
           | x # xs \<Rightarrow> if x = c then rx_exec rs xs else None)
      | Seg \<Rightarrow>
          first_some (\<lambda>n. map_option ((#) (take n s)) (rx_exec rs (drop n s)))
            (rev [1 ..< Suc (length (takeWhile (\<lambda>x. x \<noteq> CHR ''/'') s))]))"

text \<open>
  An engine that behaves as written out above on the sources of that form, and as
  the engine \<open>other\<close> on every other source. Every engine is of this kind (take the
  engine itself for \<open>other\<close>).
\<close>

definition onFragment :: "'re RegExpEngine \<Rightarrow> (rx list + 're) RegExpEngine" where
  "onFragment other =
     \<lparr> compile = (\<lambda>source.
         case fragmentRx source of
           Some compiled \<Rightarrow> Inr (Inl compiled)
         | None \<Rightarrow>
             (case compile other source of
                Inl e \<Rightarrow> Inl e
              | Inr re \<Rightarrow> Inr (Inr re))),
       exec = (\<lambda>re s.
         case re of
           Inl compiled \<Rightarrow> map_option (map Some) (rx_exec compiled s)
         | Inr re' \<Rightarrow> exec other re' s) \<rparr>"

text \<open>
  The string a pattern stands for once each group is given a value, used to say what a
  match consumed.
\<close>

fun fill :: "rx list \<Rightarrow> string list \<Rightarrow> string" where
  "fill [] caps = []"
| "fill (Lit c # rs) caps = c # fill rs caps"
| "fill (Seg # rs) [] = fill rs []"
| "fill (Seg # rs) (v # caps) = v @ fill rs caps"

subsection \<open>Parameter records\<close>

text \<open>
  The object \<open>params\<close>: its own properties in enumeration order, each with a string or
  \<open>undefined\<close> (\<open>None\<close>). An assignment \<open>params[key] = value\<close> to the object, which
  starts as \<open>{}\<close>:
  \<^item> the key \<open>__proto__\<close> is the accessor inherited from \<open>Object.prototype\<close>, whose
    setter ignores a string and \<open>undefined\<close>: no property is stored;
  \<^item> a key that is present keeps its place and takes the new value;
  \<^item> a new key that is an array index (the decimal form, without leading zeros, of a
    number below \<open>2^32 - 1\<close>) is enumerated among the array indices, in ascending
    numeric order, before all other keys;
  \<^item> any other new key comes last.
\<close>

type_synonym params = "(string \<times> string option) list"

definition digitValue :: "char \<Rightarrow> nat" where
  "digitValue c =
     (case map_of (zip ''0123456789'' [0, 1, 2, 3, 4, 5, 6, 7, 8, 9]) c of
        Some d \<Rightarrow> d
      | None \<Rightarrow> 0)"

definition indexValue :: "string \<Rightarrow> nat" where
  "indexValue s = foldl (\<lambda>n c. 10 * n + digitValue c) 0 s"

definition isArrayIndex :: "string \<Rightarrow> bool" where
  "isArrayIndex s =
     (if s = [] then False
      else if list_ex (\<lambda>c. c \<notin> set ''0123456789'') s then False
      else if hd s = CHR ''0'' then s = ''0''
      else indexValue s < 4294967295)"

fun insertIndexKey :: "string \<Rightarrow> string option \<Rightarrow> params \<Rightarrow> params" where
  "insertIndexKey k v [] = [(k, v)]"
| "insertIndexKey k v ((k', v') # rest) =
     (if isArrayIndex k' \<and> indexValue k' < indexValue k
      then (k', v') # insertIndexKey k v rest
      else (k, v) # (k', v') # rest)"

definition setProperty :: "string \<Rightarrow> string option \<Rightarrow> params \<Rightarrow> params" where
  "setProperty k v obj =
     (if k = ''__proto__'' then obj
      else if map_of obj k = None \<and> isArrayIndex k then insertIndexKey k v obj
      else AList.update k v obj)"

subsection \<open>The Route class\<close>

definition escapeSlashes :: "string \<Rightarrow> string" where
  \<comment> \<open>\<open>path.replace(/\//g, '\\/')\<close>\<close>
  "escapeSlashes p =
     concat (map (\<lambda>c. if c = CHR ''/'' then [backslash, CHR ''/''] else [c]) p)"

text \<open>
  \<open>.replace(/:([^\/]+)/g, ...)\<close>: from left to right, a colon followed by at least one
  character other than \<open>/\<close> starts a match that extends over all such characters; the
  match is replaced by the group source and the characters after the colon are pushed
  onto \<open>paramNames\<close>.
\<close>

function replaceParams :: "string \<Rightarrow> string \<times> string list" where
  "replaceParams s =
     (case s of
        [] \<Rightarrow> ([], [])
      | c # cs \<Rightarrow>
          (let paramName = takeWhile (\<lambda>x. x \<noteq> CHR ''/'') cs in
           if c = CHR '':'' \<and> paramName \<noteq> [] then
             (case replaceParams (dropWhile (\<lambda>x. x \<noteq> CHR ''/'') cs) of
                (out, names) \<Rightarrow> (groupSource @ out, paramName # names))
           else
             (case replaceParams cs of (out, names) \<Rightarrow> (c # out, names))))"
  by pat_completeness auto
termination
  by (relation "measure length") (auto simp: length_dropWhile_le less_Suc_eq_le)

definition createPattern :: "'re RegExpEngine \<Rightarrow> string \<Rightarrow> js_error + ('re \<times> string list)" where
  "createPattern engine p =
     (case replaceParams (escapeSlashes p) of
        (regexPattern, names) \<Rightarrow>
          (case compile engine (''^'' @ regexPattern @ ''$'') of
             Inl e \<Rightarrow> Inl e
           | Inr re \<Rightarrow> Inr (re, names)))"

text \<open>
  A handler is what it does with the request and the parameters it is given. The
  field \<open>method\<close> of the class is \<open>httpMethod\<close> here.
\<close>

type_synonym RouteHandler = "Request \<Rightarrow> params \<Rightarrow> effect list"

record 're Route =
  httpMethod :: string
  path :: string
  handler :: RouteHandler
  pattern :: 're
  paramNames :: "string list"

definition new_Route ::
  "'re RegExpEngine \<Rightarrow> string \<Rightarrow> string \<Rightarrow> RouteHandler \<Rightarrow> js_error + 're Route" where
  \<comment> \<open>the constructor; it throws what \<open>new RegExp\<close> throws\<close>
  "new_Route engine m p h =
     (case createPattern engine p of
        Inl e \<Rightarrow> Inl e
      | Inr (re, names) \<Rightarrow>
          Inr \<lparr> httpMethod = m, path = p, handler = h, pattern = re, paramNames = names \<rparr>)"

text \<open>
  The loop of \<open>match\<close>: \<open>params[paramNames[i]] = matches[i + 1]\<close> for each index of
  \<open>paramNames\<close>; an index past the last group reads \<open>undefined\<close>.
\<close>

fun assignParams :: "string list \<Rightarrow> string option list \<Rightarrow> params \<Rightarrow> params" where
  "assignParams [] groups obj = obj"
| "assignParams (name # names) [] obj = assignParams names [] (setProperty name None obj)"
| "assignParams (name # names) (g # groups) obj =
     assignParams names groups (setProperty name g obj)"

definition match :: "'re RegExpEngine \<Rightarrow> 're Route \<Rightarrow> string \<Rightarrow> params option" where
  "match engine route p =
     (case exec engine (pattern route) p of
        None \<Rightarrow> None
      | Some groups \<Rightarrow> Some (assignParams (paramNames route) groups []))"

section \<open>Router\<close>

text \<open>
  A middleware is a script: \<open>Do e\<close> acts on the response or throws, \<open>CallNext\<close> calls
  the continuation \<open>next()\<close>. User code is taken to run synchronously.
\<close>

datatype mstep = Do effect | CallNext

type_synonym MiddlewareHandler = "Request \<Rightarrow> mstep list"

record 're Router =
  routes :: "'re Route list"
  middlewares :: "MiddlewareHandler list"

definition newRouter :: "'re Router" where
  "newRouter = \<lparr> routes = [], middlewares = [] \<rparr>"

definition addRoute ::
  "'re RegExpEngine \<Rightarrow> string \<Rightarrow> string \<Rightarrow> RouteHandler \<Rightarrow> 're Router
     \<Rightarrow> js_error + 're Router" where
  "addRoute engine m p h router =
     (case new_Route engine m p h of
        Inl e \<Rightarrow> Inl e
      | Inr route \<Rightarrow> Inr (router\<lparr>routes := routes router @ [route]\<rparr>))"

definition use :: "MiddlewareHandler \<Rightarrow> 're Router \<Rightarrow> 're Router" where
  "use middleware router = router\<lparr>middlewares := middlewares router @ [middleware]\<rparr>"

fun findRoute ::
  "'re RegExpEngine \<Rightarrow> 're Route list \<Rightarrow> string \<Rightarrow> string \<Rightarrow> ('re Route \<times> params) option" where
  "findRoute engine [] m p = None"
| "findRoute engine (route # rest) m p =
     (if httpMethod route = m then
        (case match engine route p of
           Some ps \<Rightarrow> Some (route, ps)
         | None \<Rightarrow> findRoute engine rest m p)
      else findRoute engine rest m p)"

text \<open>
  The state a request is handled in: the response, the errors of promises that were
  rejected with nobody awaiting them, and the calls of route handlers that were made,
  each with the parameters it was given.
\<close>

record rstate =
  res :: Response
  unhandledRejections :: "js_error list"
  handlerCalls :: "(RouteHandler \<times> params) list"

definition notFoundPage :: "string \<Rightarrow> string \<Rightarrow> string" where
  \<comment> \<open>the text of the 404 page, without its markup\<close>
  "notFoundPage p m =
     ''404 - Page Not Found. The requested path '' @ p
       @ '' was not found on this server. Method: '' @ m"

definition handle404 :: "Request \<Rightarrow> rstate \<Rightarrow> rstate" where
  "handle404 request st =
     st\<lparr>res := send_html (notFoundPage (req_path request) (req_method request))
                  (status 404 (res st))\<rparr>"

text \<open>
  A call \<open>h(request, response, params)\<close> of a route handler: the handler runs on the
  response, and the call is recorded. Calling a handler is the only way to have its
  effects.
\<close>

definition callHandler ::
  "RouteHandler \<Rightarrow> Request \<Rightarrow> params \<Rightarrow> rstate \<Rightarrow> unit promise \<times> rstate" where
  "callHandler h request ps st =
     (case run_effects (h request ps) (res st) of
        (r, response') \<Rightarrow>
          (r, st\<lparr> res := response', handlerCalls := handlerCalls st @ [(h, ps)] \<rparr>))"

definition executeRouting ::
  "'re RegExpEngine \<Rightarrow> 're Router \<Rightarrow> Request \<Rightarrow> rstate \<Rightarrow> unit promise \<times> rstate" where
  "executeRouting engine router request st =
     (case findRoute engine (routes router) (req_method request) (req_path request) of
        Some (route, ps) \<Rightarrow> callHandler (handler route) request ps st
      | None \<Rightarrow> (Resolved (), handle404 request st))"

text \<open>
  One middleware call inside \<open>executeMiddlewares\<close>, with its local flag \<open>nextCalled\<close>.
  \<open>continue\<close> is \<open>executeMiddlewares\<close> at the next index: \<open>next()\<close> calls it and drops
  the promise it returns, so a rejection of that promise is awaited by nobody.
\<close>

fun runMiddleware ::
  "(rstate \<Rightarrow> unit promise \<times> rstate) \<Rightarrow> mstep list \<Rightarrow> bool \<Rightarrow> rstate
     \<Rightarrow> unit promise \<times> rstate" where
  "runMiddleware continue [] nextCalled st = (Resolved (), st)"
| "runMiddleware continue (Do (Respond code t) # steps) nextCalled st =
     runMiddleware continue steps nextCalled (st\<lparr>res := send_text t (status code (res st))\<rparr>)"
| "runMiddleware continue (Do (Raise m) # steps) nextCalled st = (Rejected (Error m), st)"
| "runMiddleware continue (CallNext # steps) nextCalled st =
     (if nextCalled then (Rejected (Error ''next() called multiple times''), st)
      else
        (case continue st of
           (Resolved u, st1) \<Rightarrow> runMiddleware continue steps True st1
         | (Rejected e, st1) \<Rightarrow>
             runMiddleware continue steps True
               (st1\<lparr>unhandledRejections := unhandledRejections st1 @ [e]\<rparr>)))"

text \<open>
  The functions in the array handed to \<open>executeMiddlewares\<close>: the registered
  middlewares, and the closure \<open>handle\<close> appends, which awaits \<open>executeRouting\<close>.
\<close>

datatype chain_entry = Registered MiddlewareHandler | Routing

primrec executeChain ::
  "'re RegExpEngine \<Rightarrow> 're Router \<Rightarrow> Request \<Rightarrow> chain_entry list \<Rightarrow> rstate
     \<Rightarrow> unit promise \<times> rstate" where
  "executeChain engine router request [] = (\<lambda>st. (Resolved (), st))"
| "executeChain engine router request (entry # rest) =
     (case entry of
        Registered middleware \<Rightarrow>
          runMiddleware (executeChain engine router request rest) (middleware request) False
      | Routing \<Rightarrow> executeRouting engine router request)"

definition executeMiddlewares ::
  "'re RegExpEngine \<Rightarrow> 're Router \<Rightarrow> Request \<Rightarrow> chain_entry list \<Rightarrow> nat \<Rightarrow> rstate
     \<Rightarrow> unit promise \<times> rstate" where
  \<comment> \<open>the call at \<open>index\<close> runs the entries from \<open>index\<close> on\<close>
  "executeMiddlewares engine router request entries index st =
     executeChain engine router request (drop index entries) st"

definition handle ::
  "'re RegExpEngine \<Rightarrow> 're Router \<Rightarrow> Request \<Rightarrow> rstate \<Rightarrow> unit promise \<times> rstate" where
  "handle engine router request st =
     (case (if length (middlewares router) > 0 then
              (let middlewareWithRouting = map Registered (middlewares router) @ [Routing]
               in executeMiddlewares engine router request middlewareWithRouting 0 st)
            else executeRouting engine router request st) of
        (Resolved u, st1) \<Rightarrow> (Resolved (), st1)
      | (Rejected e, st1) \<Rightarrow>
          (Resolved (),
           if finished (res st1) then st1
           else st1\<lparr>res := send_text ''Internal Server Error'' (status 500 (res st1))\<rparr>))"

text \<open>
  A middleware script calls \<open>next()\<close> when it reaches a \<open>CallNext\<close> without throwing
  before it.
\<close>

fun callsNext :: "mstep list \<Rightarrow> bool" where
  "callsNext [] = False"
| "callsNext (CallNext # steps) = True"
| "callsNext (Do (Respond code t) # steps) = callsNext steps"
| "callsNext (Do (Raise m) # steps) = False"

subsection \<open>Example routers\<close>

text \<open>
  An engine whose \<open>RegExp\<close> accepts nothing beyond the sources written out above; it
  stands for any engine when the templates are of that form.
\<close>

definition noEngine :: "unit RegExpEngine" where
  "noEngine = \<lparr> compile = (\<lambda>source. Inl (SyntaxError source)), exec = (\<lambda>re s. None) \<rparr>"

definition echoParams :: "string \<Rightarrow> RouteHandler" where
  \<comment> \<open>a handler that answers 200 with a tag and the parameters it was given\<close>
  "echoParams tag request ps =
     [Respond 200
        (tag @ concat (map (\<lambda>(name, v).
           '' '' @ name @ ''='' @ (case v of Some s \<Rightarrow> s | None \<Rightarrow> ''undefined'')) ps))]"

definition throwingHandler :: RouteHandler where
  "throwingHandler request ps = [Raise ''boom'']"

definition passThrough :: MiddlewareHandler where
  \<comment> \<open>\<open>(req, res, next) => { next(); }\<close>\<close>
  "passThrough request = [CallNext]"

definition st0 :: rstate where
  "st0 = \<lparr> res = newResponse, unhandledRejections = [], handlerCalls = [] \<rparr>"

text \<open>The routes \<open>new Route('GET', '/users/:id', ...)\<close> and \<open>new Route('GET', '/users/:name', ...)\<close>.\<close>

definition usersById :: "(rx list + unit) Route" where
  "usersById =
     \<lparr> httpMethod = ''GET'', path = ''/users/:id'', handler = echoParams ''byId'',
       pattern = Inl (map Lit ''/users/'' @ [Seg]), paramNames = [''id''] \<rparr>"

definition usersByName :: "(rx list + unit) Route" where
  "usersByName =
     \<lparr> httpMethod = ''GET'', path = ''/users/:name'', handler = echoParams ''byName'',
       pattern = Inl (map Lit ''/users/'' @ [Seg]), paramNames = [''name''] \<rparr>"

section \<open>SpringBridge: path matching\<close>

lemma startsWith_prefix: "startsWith s p \<longleftrightarrow> prefix p s"
  by (auto simp: startsWith_def prefix_def) (metis append_eq_conv_conj)

lemma checkSpringHealth_True_iff:
  "checkSpringHealth outcome = Resolved True \<longleftrightarrow> outcome = GotResponse 200"
  by (cases outcome) (auto simp: checkSpringHealth_def)

text \<open>
  C4 (code evaluated at the failing input). The single-wildcard branch cuts the two
  characters \<open>/*\<close> off the pattern, so the remainder of \<open>/static/a\<close> after the base
  \<open>/static\<close> is \<open>/a\<close>, which contains a separator: the pattern \<open>/static/*\<close> does not
  match the path \<open>/static/a\<close>, while \<open>/static/**\<close> matches \<open>/static/a/b\<close> and
  \<open>/static/*\<close> rejects \<open>/static/a/b\<close>.
\<close>

theorem matchPath_single_wildcard_rejects_child:
  "matchPath ''/static/*'' ''/static/a'' = False
   \<and> matchPath ''/static/**'' ''/static/a/b'' = True
   \<and> matchPath ''/static/*'' ''/static/a/b'' = False"
  by (simp add: matchPath_def endsWith_def startsWith_def slice_end_def slice_from_def
      includes_char_def)

section \<open>SpringBridge: health probe\<close>

text \<open>
  C8 as stated fails: a response with status 204 is a 2xx response, and the probe
  reports it as unhealthy.
\<close>

theorem checkSpringHealth_2xx_counterexample:
  "(200::nat) \<le> 204 \<and> (204::nat) < 300
   \<and> checkSpringHealth (GotResponse 204) = Resolved False"
  by (simp add: checkSpringHealth_def)

text \<open>
  C8 (amended). The probe always resolves, never rejects, and it resolves to true exactly
  when the GET of the health endpoint returned the status code 200; every other status
  code, an error event and a timeout resolve to false.
\<close>

theorem checkSpringHealth_exactly_200:
  "checkSpringHealth outcome = Resolved (outcome = GotResponse 200)"
  by (cases outcome) (auto simp: checkSpringHealth_def)

section \<open>SpringBridge: background probe and metadata refresh\<close>

lemma probeHealth_eq:
  "probeHealth b net
     = (checkSpringHealth (healthOutcome b net), net\<lparr>sent := sent net @ [healthGet b]\<rparr>)"
  by (simp add: probeHealth_def httpGet_def healthOutcome_def healthGet_def)

lemma loadSpringMetadata_sent:
  "sent (snd (snd (loadSpringMetadata P b net))) = sent net @ [metadataRequest b]"
  by (simp add: loadSpringMetadata_def makeHttpRequest_def metadataRequest_def upperChar_def
      split: promise.splits option.splits)

lemma loadSpringMetadata_rejected_unchanged:
  "fst (loadSpringMetadata P b net) = Rejected e \<Longrightarrow> fst (snd (loadSpringMetadata P b net)) = b"
  by (auto simp: loadSpringMetadata_def makeHttpRequest_def
      split: promise.splits option.splits)

lemma loadSpringMetadata_fails:
  assumes "(\<exists>e. metadataAnswer b net = Rejected e)
         \<or> (\<exists>r. metadataAnswer b net = Resolved r \<and> P (body r) = None)"
  shows "(\<exists>e. fst (loadSpringMetadata P b net) = Rejected e)
       \<and> fst (snd (loadSpringMetadata P b net)) = b"
  using assms
  by (auto simp: loadSpringMetadata_def makeHttpRequest_def metadataAnswer_def upperChar_def)

lemma loadSpringMetadata_stores:
  assumes "metadataAnswer b net = Resolved r" "P (body r) = Some data"
    "extractMappings data = Some ms"
  shows "fst (loadSpringMetadata P b net) = Resolved ()
       \<and> fst (snd (loadSpringMetadata P b net)) = b\<lparr>springMetadata := Some (snapshotOf b ms)\<rparr>"
  using assms
  by (simp add: loadSpringMetadata_def makeHttpRequest_def metadataAnswer_def upperChar_def
      snapshotOf_def)

lemma healthCheckTick_transition:
  assumes "\<not> isSpringReady b" "healthOutcome b net = GotResponse 200"
  shows "healthCheckTick P b net
           = snd (loadSpringMetadata P (b\<lparr>isSpringReady := True\<rparr>)
                    (net\<lparr>sent := sent net @ [healthGet b]\<rparr>))"
  using assms
  by (simp add: healthCheckTick_def probeHealth_eq checkSpringHealth_def Let_def
      split: prod.splits)

lemma healthCheckTick_no_transition:
  assumes "isSpringReady b \<or> healthOutcome b net \<noteq> GotResponse 200"
  shows "healthCheckTick P b net
           = (b\<lparr>isSpringReady := (healthOutcome b net = GotResponse 200)\<rparr>,
              net\<lparr>sent := sent net @ [healthGet b]\<rparr>)"
  using assms
  by (cases "healthOutcome b net")
    (auto simp: healthCheckTick_def probeHealth_eq checkSpringHealth_def Let_def)

lemma metadataAnswer_after_probe [simp]:
  "metadataAnswer (b\<lparr>isSpringReady := r\<rparr>) (net\<lparr>sent := s\<rparr>) = metadataAnswer b net"
  by (simp add: metadataAnswer_def)

lemma healthCheckTick_ready_iff:
  "isSpringReady (fst (healthCheckTick P b net)) \<longleftrightarrow> healthOutcome b net = GotResponse 200"
proof (cases "\<not> isSpringReady b \<and> healthOutcome b net = GotResponse 200")
  case True
  then show ?thesis
    by (simp add: healthCheckTick_transition loadSpringMetadata_def makeHttpRequest_def
        split: promise.splits option.splits)
next
  case False
  then have "isSpringReady b \<or> healthOutcome b net \<noteq> GotResponse 200" by blast
  from healthCheckTick_no_transition [OF this] show ?thesis by simp
qed

text \<open>
  C7. On a tick that finds the upstream healthy while the bridge is marked unreachable,
  the bridge becomes ready and the tick is the probe followed by one call of
  \<open>loadSpringMetadata\<close>: exactly one metadata request is sent, after the probe. On
  every other tick only the probe is sent and the snapshot stays. A call of
  \<open>loadSpringMetadata\<close> sends one request; when the answer parses to a list of
  mappings the call stores them as the new snapshot, and so does the tick of a
  transition. Whenever the fetch fails, by a rejected request (transport error,
  timeout) or by a body that \<open>JSON.parse\<close> refuses, \<open>loadSpringMetadata\<close> rejects and
  leaves the bridge as it was; after the tick the snapshot is the previous one and
  the readiness flag is what the probe reported (it is not reverted). Any rejection
  of \<open>loadSpringMetadata\<close> leaves the bridge unchanged.
\<close>

theorem healthCheckTick_refetch_once_failure_keeps_snapshot:
  "(\<not> isSpringReady b \<and> healthOutcome b net = GotResponse 200 \<longrightarrow>
      healthCheckTick P b net
        = snd (loadSpringMetadata P (b\<lparr>isSpringReady := True\<rparr>)
                 (net\<lparr>sent := sent net @ [healthGet b]\<rparr>))
      \<and> sent (snd (healthCheckTick P b net)) = sent net @ [healthGet b, metadataRequest b]
      \<and> isSpringReady (fst (healthCheckTick P b net)))
   \<and> (isSpringReady b \<or> healthOutcome b net \<noteq> GotResponse 200 \<longrightarrow>
      sent (snd (healthCheckTick P b net)) = sent net @ [healthGet b]
      \<and> springMetadata (fst (healthCheckTick P b net)) = springMetadata b)
   \<and> sent (snd (snd (loadSpringMetadata P b net))) = sent net @ [metadataRequest b]
   \<and> (metadataAnswer b net = Resolved r \<and> P (body r) = Some data
        \<and> extractMappings data = Some ms \<longrightarrow>
      fst (loadSpringMetadata P b net) = Resolved ()
      \<and> fst (snd (loadSpringMetadata P b net)) = b\<lparr>springMetadata := Some (snapshotOf b ms)\<rparr>
      \<and> (\<not> isSpringReady b \<and> healthOutcome b net = GotResponse 200 \<longrightarrow>
           fst (healthCheckTick P b net)
             = b\<lparr>isSpringReady := True, springMetadata := Some (snapshotOf b ms)\<rparr>))
   \<and> ((\<exists>e. metadataAnswer b net = Rejected e)
        \<or> (\<exists>r. metadataAnswer b net = Resolved r \<and> P (body r) = None) \<longrightarrow>
      (\<exists>e. fst (loadSpringMetadata P b net) = Rejected e)
      \<and> fst (snd (loadSpringMetadata P b net)) = b
      \<and> springMetadata (fst (healthCheckTick P b net)) = springMetadata b
      \<and> (isSpringReady (fst (healthCheckTick P b net))
            \<longleftrightarrow> healthOutcome b net = GotResponse 200))
   \<and> (\<forall>e. fst (loadSpringMetadata P b net) = Rejected e \<longrightarrow>
          fst (snd (loadSpringMetadata P b net)) = b)"
proof (intro conjI impI allI)
  assume h: "\<not> isSpringReady b \<and> healthOutcome b net = GotResponse 200"
  then show t: "healthCheckTick P b net
        = snd (loadSpringMetadata P (b\<lparr>isSpringReady := True\<rparr>)
                 (net\<lparr>sent := sent net @ [healthGet b]\<rparr>))"
    by (simp add: healthCheckTick_transition)
  show "sent (snd (healthCheckTick P b net)) = sent net @ [healthGet b, metadataRequest b]"
    unfolding t by (simp add: loadSpringMetadata_sent metadataRequest_def)
  show "isSpringReady (fst (healthCheckTick P b net))"
    using h by (simp add: healthCheckTick_ready_iff)
next
  assume "isSpringReady b \<or> healthOutcome b net \<noteq> GotResponse 200"
  from healthCheckTick_no_transition [OF this]
  show "sent (snd (healthCheckTick P b net)) = sent net @ [healthGet b]"
    and "springMetadata (fst (healthCheckTick P b net)) = springMetadata b"
    by simp_all
next
  show "sent (snd (snd (loadSpringMetadata P b net))) = sent net @ [metadataRequest b]"
    by (rule loadSpringMetadata_sent)
next
  assume s: "metadataAnswer b net = Resolved r \<and> P (body r) = Some data
        \<and> extractMappings data = Some ms"
  then show "fst (loadSpringMetadata P b net) = Resolved ()"
    and "fst (snd (loadSpringMetadata P b net)) = b\<lparr>springMetadata := Some (snapshotOf b ms)\<rparr>"
    using loadSpringMetadata_stores [of b net r P data ms] by simp_all
  assume h: "\<not> isSpringReady b \<and> healthOutcome b net = GotResponse 200"
  have "metadataAnswer (b\<lparr>isSpringReady := True\<rparr>) (net\<lparr>sent := sent net @ [healthGet b]\<rparr>)
          = Resolved r"
    using s by simp
  from loadSpringMetadata_stores [OF this, of P data ms] s
  have "fst (snd (loadSpringMetadata P (b\<lparr>isSpringReady := True\<rparr>)
                 (net\<lparr>sent := sent net @ [healthGet b]\<rparr>)))
          = b\<lparr>isSpringReady := True, springMetadata := Some (snapshotOf b ms)\<rparr>"
    by (simp add: snapshotOf_def)
  then show "fst (healthCheckTick P b net)
             = b\<lparr>isSpringReady := True, springMetadata := Some (snapshotOf b ms)\<rparr>"
    using h by (simp add: healthCheckTick_transition)
next
  assume f: "(\<exists>e. metadataAnswer b net = Rejected e)
        \<or> (\<exists>r. metadataAnswer b net = Resolved r \<and> P (body r) = None)"
  from loadSpringMetadata_fails [OF f]
  show "\<exists>e. fst (loadSpringMetadata P b net) = Rejected e"
    and "fst (snd (loadSpringMetadata P b net)) = b"
    by simp_all
  show "springMetadata (fst (healthCheckTick P b net)) = springMetadata b"
  proof (cases "\<not> isSpringReady b \<and> healthOutcome b net = GotResponse 200")
    case True
    have "(\<exists>e. metadataAnswer (b\<lparr>isSpringReady := True\<rparr>)
                 (net\<lparr>sent := sent net @ [healthGet b]\<rparr>) = Rejected e)
        \<or> (\<exists>r. metadataAnswer (b\<lparr>isSpringReady := True\<rparr>)
                 (net\<lparr>sent := sent net @ [healthGet b]\<rparr>) = Resolved r \<and> P (body r) = None)"
      using f by simp
    from loadSpringMetadata_fails [OF this] show ?thesis
      using True by (simp add: healthCheckTick_transition)
  next
    case False
    then have "isSpringReady b \<or> healthOutcome b net \<noteq> GotResponse 200" by blast
    from healthCheckTick_no_transition [OF this] show ?thesis by simp
  qed
  show "isSpringReady (fst (healthCheckTick P b net))
            \<longleftrightarrow> healthOutcome b net = GotResponse 200"
    by (rule healthCheckTick_ready_iff)
next
  fix e
  assume "fst (loadSpringMetadata P b net) = Rejected e"
  then show "fst (snd (loadSpringMetadata P b net)) = b"
    by (rule loadSpringMetadata_rejected_unchanged)
qed

lemma extractMappings_mappingsDoc:
  "extractMappings mappingsDoc
     = Some [\<lparr> sm_path = JStr ''/api/orders/{id}'', sm_method = ''GET'',
               sm_produces = JArr [], sm_consumes = JArr [],
               sm_className = JStr ''OrderController'', sm_methodName = JStr ''byId'' \<rparr>]"
  by (simp add: mappingsDoc_def extractMappings_def servletEntries_def mappingEntries_def
      forEach_def js_or_def upperChar_def)

theorem healthCheckTick_refetch_witness:
  "\<not> isSpringReady bridge0
   \<and> healthOutcome bridge0 netUp = GotResponse 200
   \<and> sent (snd (healthCheckTick parseDoc bridge0 netUp))
       = [HttpGet ''localhost'' 8081 ''/actuator/health'',
          HttpRequest ''GET'' ''/actuator/mappings'']
   \<and> fst (healthCheckTick parseDoc bridge0 netUp)
       = bridge0\<lparr> isSpringReady := True,
                  springMetadata := Some (snapshotOf bridge0
                    [\<lparr> sm_path = JStr ''/api/orders/{id}'', sm_method = ''GET'',
                       sm_produces = JArr [], sm_consumes = JArr [],
                       sm_className = JStr ''OrderController'',
                       sm_methodName = JStr ''byId'' \<rparr>]) \<rparr>
   \<and> sent (snd (healthCheckTick parseDoc bridge0 netUpNoMetadata))
       = [HttpGet ''localhost'' 8081 ''/actuator/health'',
          HttpRequest ''GET'' ''/actuator/mappings'']
   \<and> fst (healthCheckTick parseDoc bridge0 netUpNoMetadata) = bridge0\<lparr>isSpringReady := True\<rparr>
   \<and> healthCheckTick parseDoc bridge0 netDown
       = (bridge0, netDown\<lparr>sent := [HttpGet ''localhost'' 8081 ''/actuator/health'']\<rparr>)"
proof -
  let ?ms = "[\<lparr> sm_path = JStr ''/api/orders/{id}'', sm_method = ''GET'',
                       sm_produces = JArr [], sm_consumes = JArr [],
                       sm_className = JStr ''OrderController'',
                       sm_methodName = JStr ''byId'' \<rparr>]"
  let ?r = "\<lparr> statusCode = 200, headers = [], body = ''mappings document'' \<rparr>"
  have n: "\<not> isSpringReady bridge0" by (simp add: bridge0_def)
  have up: "healthOutcome bridge0 netUp = GotResponse 200"
    and up': "healthOutcome bridge0 netUpNoMetadata = GotResponse 200"
    and down: "healthOutcome bridge0 netDown \<noteq> GotResponse 200"
    by (simp_all add: healthOutcome_def netUp_def netUpNoMetadata_def netDown_def)
  have a: "metadataAnswer bridge0 netUp = Resolved ?r"
    and a': "metadataAnswer bridge0 netUpNoMetadata = Rejected (Error ''Request timeout'')"
    by (simp_all add: metadataAnswer_def netUp_def netUpNoMetadata_def)
  have p: "parseDoc (body ?r) = Some mappingsDoc" by (simp add: parseDoc_def)
  have hg: "healthGet bridge0 = HttpGet ''localhost'' 8081 ''/actuator/health''"
    and mr: "metadataRequest bridge0 = HttpRequest ''GET'' ''/actuator/mappings''"
    by (simp_all add: healthGet_def metadataRequest_def bridge0_def)
  note ok = healthCheckTick_refetch_once_failure_keeps_snapshot
    [where b = bridge0 and net = netUp and P = parseDoc and r = ?r and data = mappingsDoc
       and ms = ?ms]
  note ko = healthCheckTick_refetch_once_failure_keeps_snapshot
    [where b = bridge0 and net = netUpNoMetadata and P = parseDoc]
  note no = healthCheckTick_refetch_once_failure_keeps_snapshot
    [where b = bridge0 and net = netDown and P = parseDoc]
  from ok [THEN conjunct1] n up
  have "sent (snd (healthCheckTick parseDoc bridge0 netUp))
          = sent netUp @ [healthGet bridge0, metadataRequest bridge0]"
    by blast
  then have 1: "sent (snd (healthCheckTick parseDoc bridge0 netUp))
       = [HttpGet ''localhost'' 8081 ''/actuator/health'',
          HttpRequest ''GET'' ''/actuator/mappings'']"
    by (simp add: hg mr netUp_def)
  from ok [THEN conjunct2, THEN conjunct2, THEN conjunct2, THEN conjunct1]
    a p extractMappings_mappingsDoc n up
  have 2: "fst (healthCheckTick parseDoc bridge0 netUp)
       = bridge0\<lparr> isSpringReady := True, springMetadata := Some (snapshotOf bridge0 ?ms) \<rparr>"
    by blast
  from ko [THEN conjunct1] n up'
  have "sent (snd (healthCheckTick parseDoc bridge0 netUpNoMetadata))
          = sent netUpNoMetadata @ [healthGet bridge0, metadataRequest bridge0]"
    by blast
  then have 3: "sent (snd (healthCheckTick parseDoc bridge0 netUpNoMetadata))
       = [HttpGet ''localhost'' 8081 ''/actuator/health'',
          HttpRequest ''GET'' ''/actuator/mappings'']"
    by (simp add: hg mr netUp_def netUpNoMetadata_def)
  from ko [THEN conjunct2, THEN conjunct2, THEN conjunct2, THEN conjunct2, THEN conjunct1]
    a' up'
  have k: "springMetadata (fst (healthCheckTick parseDoc bridge0 netUpNoMetadata))
          = springMetadata bridge0
        \<and> isSpringReady (fst (healthCheckTick parseDoc bridge0 netUpNoMetadata))"
    by blast
  have "bridgeConfig (fst (healthCheckTick parseDoc bridge0 netUpNoMetadata))
          = bridgeConfig bridge0
        \<and> healthCheckInterval (fst (healthCheckTick parseDoc bridge0 netUpNoMetadata))
          = healthCheckInterval bridge0"
    using n up' a'
    by (simp add: healthCheckTick_transition loadSpringMetadata_def makeHttpRequest_def
        metadataAnswer_def upperChar_def)
  with k have 4: "fst (healthCheckTick parseDoc bridge0 netUpNoMetadata)
                        = bridge0\<lparr>isSpringReady := True\<rparr>"
    by (cases "fst (healthCheckTick parseDoc bridge0 netUpNoMetadata)")
       (simp add: bridge0_def)
  from no [THEN conjunct2, THEN conjunct1] down
  have "sent (snd (healthCheckTick parseDoc bridge0 netDown))
          = sent netDown @ [healthGet bridge0]"
    by blast
  moreover have "healthCheckTick parseDoc bridge0 netDown
          = (bridge0\<lparr>isSpringReady := False\<rparr>,
             netDown\<lparr>sent := sent netDown @ [healthGet bridge0]\<rparr>)"
    using healthCheckTick_no_transition [of bridge0 netDown parseDoc] down by simp
  moreover have "bridge0\<lparr>isSpringReady := False\<rparr> = bridge0"
    by (simp add: bridge0_def)
  moreover have "sent netDown = []" by (simp add: netDown_def)
  ultimately have 5: "healthCheckTick parseDoc bridge0 netDown
       = (bridge0, netDown\<lparr>sent := [HttpGet ''localhost'' 8081 ''/actuator/health'']\<rparr>)"
    by (simp add: hg)
  show ?thesis using n up 1 2 3 4 5 by simp
qed

section \<open>ServletContainer: the pattern map keeps each key once\<close>

text \<open>
  No operation of the container puts a pattern into the map twice: registering refuses a
  pattern that is present, unregistering removes, the others leave the patterns as they
  are. A container built from the empty one therefore has each pattern once.
\<close>

lemma initializeServlet_container: "container (snd (initializeServlet mapping w)) = container w"
  by (auto simp: initializeServlet_def servlet_init_def Let_def
      split: prod.splits promise.splits option.splits)

lemma initializeAll_container: "container (snd (initializeAll ms w)) = container w"
proof (induction ms arbitrary: w)
  case Nil then show ?case by simp
next
  case (Cons a ms)
  show ?case
  proof (cases "initializeServlet a w")
    case (Pair r w1)
    then have "container w1 = container w" using initializeServlet_container [of a w] by simp
    then show ?thesis using Pair Cons.IH [of w1] by (cases r) auto
  qed
qed

lemma servlet_destroy_container: "container (snd (servlet_destroy a w)) = container w"
  by (auto simp: servlet_destroy_def split: option.splits)

lemma destroyAll_container: "container (destroyAll ms w) = container w"
  by (induction ms arbitrary: w) (auto simp: servlet_destroy_container)

lemma servlet_service_container:
  "container (fst (snd (servlet_service a request w response))) = container w"
  by (auto simp: servlet_service_def split: prod.splits)

lemma start_keys: "servletMappings (container (snd (start w))) = servletMappings (container w)"
proof (cases "initializeAll
               (sort_key (\<lambda>mapping. case loadOnStartup mapping of Some n \<Rightarrow> n | None \<Rightarrow> 0)
                 (filter (\<lambda>mapping. loadOnStartup mapping \<noteq> None)
                    (map snd (servletMappings (container w))))) w")
  case (Pair r w1)
  then have "container w1 = container w" using initializeAll_container by (metis snd_conv)
  then show ?thesis using Pair by (cases r) (auto simp: start_def Let_def)
qed

lemma stop_keys: "servletMappings (container (snd (stop w))) = servletMappings (container w)"
  by (simp add: stop_def Let_def destroyAll_container)

lemma registerServlet_keys:
  "distinct (map fst (servletMappings (container w))) \<Longrightarrow>
   distinct (map fst (servletMappings (container (snd (registerServlet pat a c los w)))))"
  by (auto simp: registerServlet_def Let_def initializeServlet_container distinct_update)

lemma unregisterServlet_keys:
  assumes "distinct (map fst (servletMappings (container w)))"
  shows "distinct (map fst (servletMappings (container (snd (unregisterServlet pat w)))))"
proof (cases "map_of (servletMappings (container w)) pat")
  case None
  then show ?thesis using assms by (simp add: unregisterServlet_def)
next
  case (Some mapping)
  show ?thesis
  proof (cases "servlet_destroy (servlet mapping) w")
    case (Pair r w1)
    then have c: "container w1 = container w"
      using servlet_destroy_container [of "servlet mapping" w] by simp
    show ?thesis
    proof (cases r)
      case (Resolved u)
      then show ?thesis using Some Pair c assms
        by (simp add: unregisterServlet_def Let_def distinct_delete)
    next
      case (Rejected e)
      then show ?thesis using Some Pair c assms by (simp add: unregisterServlet_def)
    qed
  qed
qed


lemma map_fst_map_entry: "map fst (AList.map_entry k f xs) = map fst xs"
  by (induction xs) auto

lemma serveMapping_keys:
  "map fst (servletMappings (container (fst (snd (serveMapping m request w response)))))
   = map fst (servletMappings (container w))"
proof -
  define w1 where "w1 = w\<lparr>container := (container w)
                 \<lparr> servletMappings :=
                     AList.map_entry (urlPattern m)
                       (\<lambda>mapping. mapping\<lparr>requestCount := requestCount mapping + 1\<rparr>)
                       (servletMappings (container w)),
                   servletsByName :=
                     AList.map_entry (servletName (config m))
                       (\<lambda>mapping. mapping\<lparr>requestCount := requestCount mapping + 1\<rparr>)
                       (servletsByName (container w)),
                   totalRequests := totalRequests (container w) + 1 \<rparr>\<rparr>"
  have k1: "map fst (servletMappings (container w1)) = map fst (servletMappings (container w))"
    by (simp add: w1_def map_fst_map_entry)
  obtain i w2 where iw: "(if isServletInitialized m w1 then (Resolved (), w1)
              else initializeServlet m w1) = (i, w2)"
    by (cases "if isServletInitialized m w1 then (Resolved (), w1)
              else initializeServlet m w1") auto
  have c2: "container w2 = container w1"
    using iw initializeServlet_container [of m w1] by (auto split: if_splits)
  obtain sv w3 r1 where sw: "(case i of
                Rejected e \<Rightarrow> (Rejected e, w2, response)
              | Resolved u \<Rightarrow> servlet_service (servlet m) request w2 response) = (sv, w3, r1)"
    by (metis prod_cases3)
  have c3: "container w3 = container w2"
    using sw servlet_service_container [of "servlet m" request w2 response]
    by (cases i) auto
  have "fst (snd (serveMapping m request w response)) = w3"
    using iw sw unfolding serveMapping_def Let_def w1_def [symmetric]
    by (cases sv) simp_all
  then show ?thesis using c3 c2 k1 by simp
qed

lemma handleRequest_keys:
  "map fst (servletMappings (container (fst (snd (handleRequest request w response)))))
   = map fst (servletMappings (container w))"
  by (simp add: handleRequest_def serveMapping_keys split: option.splits)

section \<open>ServletContainer: selection of the servlet\<close>

lemma hd_sort_key_min:
  fixes f :: "'a \<Rightarrow> int"
  assumes "xs \<noteq> []"
  shows "hd (sort_key f xs) \<in> set xs \<and> (\<forall>y \<in> set xs. f (hd (sort_key f xs)) \<le> f y)"
proof -
  obtain z zs where zs: "sort_key f xs = z # zs"
    using assms by (cases "sort_key f xs") (auto dest: arg_cong [where f = length])
  have st: "sorted (map f (z # zs))" using sorted_sort_key [of f xs] zs by simp
  have se: "set (z # zs) = set xs" using set_sort [of f xs] zs by simp
  have "z \<in> set xs" using se by auto
  moreover have "\<forall>y \<in> set xs. f z \<le> f y"
  proof
    fix y assume "y \<in> set xs"
    then have "y = z \<or> y \<in> set zs" using se by auto
    then show "f z \<le> f y" using st by auto
  qed
  ultimately show ?thesis using zs by simp
qed

lemma find_first_key:
  "map_of maps p = Some m \<Longrightarrow> find (\<lambda>(pat, mapping). p = pat) maps = Some (p, m)"
  by (induction maps) (auto split: if_splits)

lemma find_exact_none:
  "p \<notin> fst ` set maps \<Longrightarrow> find (\<lambda>(pat, mapping). p = pat) maps = None"
  by (induction maps) (auto split: prod.splits)

lemma prefix_same_length: "prefix p (s::string) \<Longrightarrow> prefix q s \<Longrightarrow> length p = length q \<Longrightarrow> p = q"
  by (metis prefix_length_prefix order_refl prefix_order.antisym)

lemma findMatchingServlet_first_key:
  "map_of maps p = Some m \<Longrightarrow> findMatchingServlet maps p = Some m"
  by (simp add: findMatchingServlet_def find_first_key)

lemma findMatchingServlet_exact:
  assumes "distinct (map fst maps)" "(p, m) \<in> set maps"
  shows "findMatchingServlet maps p = Some m"
  using assms by (simp add: findMatchingServlet_first_key)

lemma findMatchingServlet_longest:
  assumes d: "distinct (map fst maps)" and pm: "(p, m) \<in> set maps"
    and pre: "prefix p rp"
    and longest: "\<forall>q \<in> fst ` set maps. prefix q rp \<longrightarrow> length q \<le> length p"
  shows "findMatchingServlet maps rp = Some m"
proof (cases "rp \<in> fst ` set maps")
  case True
  then have "length rp \<le> length p" using longest by auto
  then have "p = rp" using pre by (auto simp: prefix_def)
  then show ?thesis using findMatchingServlet_exact [OF d pm] by simp
next
  case False
  let ?pm = "filter (\<lambda>(pat, mapping). startsWith rp pat) maps"
  let ?h = "hd (sort_key (\<lambda>(pat, mapping). - int (length pat)) ?pm)"
  have mem: "(p, m) \<in> set ?pm" using pm pre by (simp add: startsWith_prefix)
  then have ne: "?pm \<noteq> []" by (metis empty_iff empty_set)
  from hd_sort_key_min [OF ne, of "\<lambda>(pat, mapping). - int (length pat)"]
  have hin: "?h \<in> set ?pm"
    and hmin: "\<forall>y \<in> set ?pm. (case ?h of (pat, mapping) \<Rightarrow> - int (length pat))
                 \<le> (case y of (pat, mapping) \<Rightarrow> - int (length pat))"
    by blast+
  obtain q m' where h: "?h = (q, m')" by (cases ?h)
  have qin: "(q, m') \<in> set maps" and qpre: "prefix q rp"
    using hin h by (auto simp: startsWith_prefix)
  have "length p \<le> length q" using hmin mem h by fastforce
  moreover have "length q \<le> length p" using longest qin qpre by force
  ultimately have "q = p" using prefix_same_length [OF qpre pre] by simp
  then have "m' = m" using d pm qin by (metis eq_key_imp_eq_value)
  then show ?thesis using False ne h
    by (simp add: findMatchingServlet_def find_exact_none Let_def)
qed

lemma findMatchingServlet_none:
  assumes "\<forall>q \<in> fst ` set maps. \<not> prefix q rp"
  shows "findMatchingServlet maps rp = None"
proof -
  have "rp \<notin> fst ` set maps" using assms by auto
  moreover have "filter (\<lambda>(pat, mapping). startsWith rp pat) maps = []"
    using assms by (auto simp: filter_empty_conv startsWith_prefix)
  ultimately show ?thesis by (simp add: findMatchingServlet_def find_exact_none)
qed


lemma serveMapping_handled: "fst (serveMapping m request w response) = Resolved True"
  by (auto simp: serveMapping_def Let_def split: prod.splits promise.splits)

lemmas container_defs = newContainer_def registerServlet_def start_def stop_def
  handleRequest_def serveMapping_def findMatchingServlet_def startsWith_def map_has_def
  initializeServlet_def servlet_init_def servlet_destroy_def servlet_service_def
  isServletInitialized_def Let_def

lemma world_ab_eq:
  "world_ab =
     \<lparr> container =
         \<lparr> servletMappings =
             [(''/a'', \<lparr> urlPattern = ''/a'', servlet = 0, config = cfg ''A'',
                        loadOnStartup = None, requestCount = 0 \<rparr>),
              (''/a/b'', \<lparr> urlPattern = ''/a/b'', servlet = 1, config = cfg ''AB'',
                          loadOnStartup = None, requestCount = 0 \<rparr>)],
           servletsByName =
             [(''A'', \<lparr> urlPattern = ''/a'', servlet = 0, config = cfg ''A'',
                       loadOnStartup = None, requestCount = 0 \<rparr>),
              (''AB'', \<lparr> urlPattern = ''/a/b'', servlet = 1, config = cfg ''AB'',
                        loadOnStartup = None, requestCount = 0 \<rparr>)],
           isStarted = True, totalRequests = 0 \<rparr>,
       servlets = (\<lambda>a. okServlet), events = [] \<rparr>"
  by (simp add: world_ab_def world0_def newContainer_def registerServlet_def start_def
      map_has_def cfg_def Let_def)

text \<open>
  C1. In a started container whose pattern map has each key once (what a \<open>Map\<close>
  guarantees), \<open>handleRequest\<close> serves the request with the mapping registered under
  exactly the request path when there is one; otherwise with the mapping whose pattern
  is the longest registered pattern that is a prefix of the path; and when no registered
  pattern is a prefix of the path it resolves to false and changes nothing. Serving a
  mapping always resolves to true (handled).
\<close>

theorem handleRequest_exact_else_longest_prefix:
  assumes "isStarted (container w)"
    and "distinct (map fst (servletMappings (container w)))"
  shows "((req_path request, m) \<in> set (servletMappings (container w)) \<longrightarrow>
            handleRequest request w response = serveMapping m request w response)
       \<and> (req_path request \<notin> fst ` set (servletMappings (container w))
            \<and> (p, m) \<in> set (servletMappings (container w))
            \<and> prefix p (req_path request)
            \<and> (\<forall>q \<in> fst ` set (servletMappings (container w)).
                  prefix q (req_path request) \<longrightarrow> length q \<le> length p) \<longrightarrow>
            handleRequest request w response = serveMapping m request w response)
       \<and> ((\<forall>q \<in> fst ` set (servletMappings (container w)). \<not> prefix q (req_path request)) \<longrightarrow>
            handleRequest request w response = (Resolved False, w, response))
       \<and> fst (serveMapping m request w response) = Resolved True"
proof (intro conjI impI)
  assume "(req_path request, m) \<in> set (servletMappings (container w))"
  then have "findMatchingServlet (servletMappings (container w)) (req_path request) = Some m"
    using assms(2) by (rule findMatchingServlet_exact [rotated])
  then show "handleRequest request w response = serveMapping m request w response"
    using assms(1) by (simp add: handleRequest_def)
next
  assume h: "req_path request \<notin> fst ` set (servletMappings (container w))
            \<and> (p, m) \<in> set (servletMappings (container w))
            \<and> prefix p (req_path request)
            \<and> (\<forall>q \<in> fst ` set (servletMappings (container w)).
                  prefix q (req_path request) \<longrightarrow> length q \<le> length p)"
  then have "findMatchingServlet (servletMappings (container w)) (req_path request) = Some m"
    using assms(2) by (intro findMatchingServlet_longest) auto
  then show "handleRequest request w response = serveMapping m request w response"
    using assms(1) by (simp add: handleRequest_def)
next
  assume "\<forall>q \<in> fst ` set (servletMappings (container w)). \<not> prefix q (req_path request)"
  then have "findMatchingServlet (servletMappings (container w)) (req_path request) = None"
    by (rule findMatchingServlet_none)
  then show "handleRequest request w response = (Resolved False, w, response)"
    using assms(1) by (simp add: handleRequest_def)
next
  show "fst (serveMapping m request w response) = Resolved True"
    by (rule serveMapping_handled)
qed

theorem handleRequest_selection_witness:
  "isStarted (container world_ab)
   \<and> distinct (map fst (servletMappings (container world_ab)))
   \<and> handleRequest (GET ''/a/b'') world_ab newResponse
       = serveMapping \<lparr> urlPattern = ''/a/b'', servlet = 1, config = cfg ''AB'',
                         loadOnStartup = None, requestCount = 0 \<rparr>
           (GET ''/a/b'') world_ab newResponse
   \<and> handleRequest (GET ''/a/b/c'') world_ab newResponse
       = serveMapping \<lparr> urlPattern = ''/a/b'', servlet = 1, config = cfg ''AB'',
                         loadOnStartup = None, requestCount = 0 \<rparr>
           (GET ''/a/b/c'') world_ab newResponse
   \<and> events (fst (snd (handleRequest (GET ''/a/b/c'') world_ab newResponse)))
       = [Init 1, Service 1]
   \<and> handleRequest (GET ''/x'') world_ab newResponse = (Resolved False, world_ab, newResponse)"
proof -
  let ?ab = "\<lparr> urlPattern = ''/a/b'', servlet = 1, config = cfg ''AB'',
                loadOnStartup = None, requestCount = 0 \<rparr>"
  have s: "isStarted (container world_ab)" by (simp add: world_ab_eq)
  have d: "distinct (map fst (servletMappings (container world_ab)))"
    by (simp add: world_ab_eq)
  have e: "events (fst (snd (handleRequest (GET ''/a/b/c'') world_ab newResponse)))
             = [Init 1, Service 1]"
    by (simp add: world_ab_eq container_defs okServlet_def cfg_def GET_def)
  from handleRequest_exact_else_longest_prefix [OF s d, where request = "GET ''/a/b''" and m = ?ab and response = newResponse]
  have 1: "handleRequest (GET ''/a/b'') world_ab newResponse
             = serveMapping ?ab (GET ''/a/b'') world_ab newResponse"
    by (simp add: world_ab_eq GET_def)
  from handleRequest_exact_else_longest_prefix
    [OF s d, where request = "GET ''/a/b/c''" and m = ?ab and p = "''/a/b''"
      and response = newResponse]
  have 2: "handleRequest (GET ''/a/b/c'') world_ab newResponse
             = serveMapping ?ab (GET ''/a/b/c'') world_ab newResponse"
    by (simp add: world_ab_eq GET_def)
  from handleRequest_exact_else_longest_prefix 
    [OF s d, where request = "GET ''/x''" and response = newResponse]
  have 3: "handleRequest (GET ''/x'') world_ab newResponse
             = (Resolved False, world_ab, newResponse)"
    by (simp add: world_ab_eq GET_def)
  show ?thesis using s d e 1 2 3 by simp
qed

section \<open>ServletContainer: prefix matching is on characters\<close>



section \<open>ServletContainer: unregistering a servlet whose destroy throws\<close>

text \<open>
  C9. When \<open>unregisterServlet\<close> is called for a registered pattern and the servlet's
  \<open>destroy\<close> throws, the call rejects with a \<open>ServletContainerException\<close> and the
  state is the one before the call: both maps still hold the mapping, and a request
  to the pattern still selects it.
\<close>

theorem unregisterServlet_destroy_throws_keeps_mapping:
  assumes "map_of (servletMappings (container w)) pat = Some mapping"
    and "destroy_throws (servlets w (servlet mapping)) = Some msg"
  shows "unregisterServlet pat w
           = (Rejected (ServletContainerException (''Failed to unregister servlet: '' @ pat)), w)
       \<and> servletMappings (container (snd (unregisterServlet pat w)))
           = servletMappings (container w)
       \<and> servletsByName (container (snd (unregisterServlet pat w)))
           = servletsByName (container w)
       \<and> findMatchingServlet (servletMappings (container (snd (unregisterServlet pat w)))) pat
           = Some mapping"
proof -
  have u: "unregisterServlet pat w
           = (Rejected (ServletContainerException (''Failed to unregister servlet: '' @ pat)), w)"
    using assms by (simp add: unregisterServlet_def servlet_destroy_def)
  moreover have "findMatchingServlet (servletMappings (container w)) pat = Some mapping"
    using assms(1) by (rule findMatchingServlet_first_key)
  ultimately show ?thesis by simp
qed

lemma world_hello_eq:
  "world_hello =
     \<lparr> container =
         \<lparr> servletMappings =
             [(''/servlet/hello'', \<lparr> urlPattern = ''/servlet/hello'', servlet = 0,
                 config = cfg ''hello'', loadOnStartup = None, requestCount = 0 \<rparr>)],
           servletsByName =
             [(''hello'', \<lparr> urlPattern = ''/servlet/hello'', servlet = 0,
                 config = cfg ''hello'', loadOnStartup = None, requestCount = 0 \<rparr>)],
           isStarted = True, totalRequests = 0 \<rparr>,
       servlets = (\<lambda>a. failingDestroyServlet), events = [] \<rparr>"
  by (simp add: world_hello_def world0_def newContainer_def registerServlet_def start_def
      map_has_def cfg_def Let_def)

theorem unregisterServlet_destroy_throws_witness:
  "map_of (servletMappings (container world_hello)) ''/servlet/hello''
     = Some \<lparr> urlPattern = ''/servlet/hello'', servlet = 0,
         config = cfg ''hello'', loadOnStartup = None, requestCount = 0 \<rparr>
   \<and> destroy_throws (servlets world_hello 0) = Some ''cannot release''
   \<and> unregisterServlet ''/servlet/hello'' world_hello
       = (Rejected (ServletContainerException
            ''Failed to unregister servlet: /servlet/hello''), world_hello)
   \<and> fst (handleRequest (GET ''/servlet/hello'')
            (snd (unregisterServlet ''/servlet/hello'' world_hello)) newResponse)
       = Resolved True"
proof -
  let ?m = "\<lparr> urlPattern = ''/servlet/hello'', servlet = 0,
         config = cfg ''hello'', loadOnStartup = None, requestCount = 0 \<rparr>"
  have 1: "map_of (servletMappings (container world_hello)) ''/servlet/hello'' = Some ?m"
    by (simp add: world_hello_eq)
  have 2: "destroy_throws (servlets world_hello (servlet ?m)) = Some ''cannot release''"
    by (simp add: world_hello_eq failingDestroyServlet_def)
  from unregisterServlet_destroy_throws_keeps_mapping [OF 1 2]
  have 3: "unregisterServlet ''/servlet/hello'' world_hello
       = (Rejected (ServletContainerException
            ''Failed to unregister servlet: /servlet/hello''), world_hello)"
    and 4: "findMatchingServlet
              (servletMappings (container (snd (unregisterServlet ''/servlet/hello'' world_hello))))
              ''/servlet/hello'' = Some ?m"
    by (elim conjE, simp)+
  have s: "isStarted (container world_hello)" by (simp add: world_hello_eq)
  have "fst (handleRequest (GET ''/servlet/hello'')
            (snd (unregisterServlet ''/servlet/hello'' world_hello)) newResponse)
       = Resolved True"
    using 3 4 s by (simp add: handleRequest_def GET_def serveMapping_handled)
  then show ?thesis using 1 2 3 by simp
qed

section \<open>ServletContainer: dispatch after destroy\<close>

lemma handleRequest_stopped:
  "\<not> isStarted (container w) \<Longrightarrow>
   handleRequest request w response
     = (Rejected (ServletContainerException ''Container is not started''), w, response)"
  by (simp add: handleRequest_def)

text \<open>
  C6 (code evaluated at the failing sequence). A servlet registered at \<open>/a\<close> without a
  load priority is initialised by the first request to \<open>/a\<close>; \<open>stop\<close> destroys it and
  \<open>start\<close> starts the container again without initialising it. The next request to
  \<open>/a\<close> is handled: \<open>service\<close> is called on the servlet after its \<open>destroy\<close> has
  completed, with no call of \<open>init\<close> in between.
\<close>

theorem handleRequest_after_restart_serves_destroyed_servlet:
  "fst (handleRequest (GET ''/a'') world_restarted newResponse) = Resolved True
   \<and> events (fst (snd (handleRequest (GET ''/a'') world_restarted newResponse)))
       = [Init 0, Service 0, Destroyed 0, Service 0]"
  by (simp add: world_restarted_def world0_def okServlet_def cfg_def GET_def container_defs)

section \<open>Route: compiled templates\<close>

lemmas route_defs = new_Route_def createPattern_def escapeSlashes_def fragmentRx_def
  onFragment_def groupSource_def metaChars_def backslash_def match_def setProperty_def
  isArrayIndex_def

lemmas response_defs = send_text_def send_html_def send_json_def send_def raw_end_def
  writeHeadersIfNeeded_def contentType_def setHeader_def status_def lowerChar_def
  newResponse_def finished_def headersSent_def

lemma first_some_SomeD: "first_some f xs = Some y \<Longrightarrow> \<exists>x \<in> set xs. f x = Some y"
  by (induction xs) (auto split: option.splits)

lemma rx_exec_sound:
  "rx_exec rs s = Some caps \<Longrightarrow>
   s = fill rs caps \<and> length caps = length (filter (\<lambda>r. r = Seg) rs)
   \<and> (\<forall>v \<in> set caps. v \<noteq> [] \<and> CHR ''/'' \<notin> set v)"
proof (induction rs arbitrary: s caps)
  case Nil
  then show ?case by (auto split: if_splits)
next
  case (Cons r rs)
  show ?case
  proof (cases r)
    case (Lit c)
    then obtain xs where s: "s = c # xs" and e: "rx_exec rs xs = Some caps"
      using Cons.prems by (auto split: list.splits if_splits)
    from Cons.IH [OF e] show ?thesis using s Lit by simp
  next
    case Seg
    let ?k = "length (takeWhile (\<lambda>x. x \<noteq> CHR ''/'') s)"
    from Cons.prems Seg have
      "first_some (\<lambda>n. map_option ((#) (take n s)) (rx_exec rs (drop n s)))
         (rev [1 ..< Suc ?k]) = Some caps"
      by simp
    from first_some_SomeD [OF this] obtain n where n: "n \<in> set (rev [1 ..< Suc ?k])"
      and m: "map_option ((#) (take n s)) (rx_exec rs (drop n s)) = Some caps"
      by blast
    then obtain caps' where c: "caps = take n s # caps'" and e: "rx_exec rs (drop n s) = Some caps'"
      by auto
    have nb: "1 \<le> n" "n \<le> ?k" using n by auto
    have "take n (takeWhile (\<lambda>x. x \<noteq> CHR ''/'') s @ dropWhile (\<lambda>x. x \<noteq> CHR ''/'') s)
            = take n (takeWhile (\<lambda>x. x \<noteq> CHR ''/'') s)"
      using nb(2) by (simp only: take_append diff_is_0_eq' take_0 append_Nil2)
    then have t: "take n s = take n (takeWhile (\<lambda>x. x \<noteq> CHR ''/'') s)"
      by (simp only: takeWhile_dropWhile_id)
    have ns: "CHR ''/'' \<notin> set (take n s)"
      unfolding t by (metis in_set_takeD set_takeWhileD)
    have "n \<le> length s" using nb length_takeWhile_le [of "\<lambda>x. x \<noteq> CHR ''/''" s] by simp
    then have ne: "take n s \<noteq> []" using nb by auto
    from Cons.IH [OF e] show ?thesis using c Seg ns ne
      by (simp) (metis append_take_drop_id)
  qed
qed

lemma update_entries:
  "(k', v') \<in> set (AList.update k v al) \<Longrightarrow> (k', v') = (k, v) \<or> (k', v') \<in> set al"
  by (induction al) (auto split: if_splits)

lemma insertIndexKey_entries:
  "(k', v') \<in> set (insertIndexKey k v obj) \<Longrightarrow> (k', v') = (k, v) \<or> (k', v') \<in> set obj"
  by (induction obj) (auto split: if_splits)

lemma setProperty_entries:
  "(k', v') \<in> set (setProperty k v obj) \<Longrightarrow> (k', v') = (k, v) \<or> (k', v') \<in> set obj"
  by (auto simp: setProperty_def dest: update_entries insertIndexKey_entries split: if_splits)

lemma assignParams_entries:
  "(k, v) \<in> set (assignParams names groups obj) \<Longrightarrow>
   v = None \<or> v \<in> set groups \<or> (k, v) \<in> set obj"
proof (induction names groups obj rule: assignParams.induct)
  case (1 groups obj)
  then show ?case by simp
next
  case (2 name names obj)
  then show ?case by (auto dest: setProperty_entries)
next
  case (3 name names g groups obj)
  then show ?case by (auto dest: setProperty_entries)
qed

text \<open>
  What a successful match says about the path, for every route whose expression is of
  the form written out: the path is the pattern with each group filled by its capture
  (the whole path is matched, nothing before or after it), there is one capture per
  group, and every capture, hence every parameter value that is not \<open>undefined\<close>, is
  non-empty and contains no separator.
\<close>

lemma match_anchored_one_segment:
  assumes "pattern route = Inl compiled"
    and "match (onFragment other) route p = Some ps"
  shows "(\<exists>caps. rx_exec compiled p = Some caps \<and> p = fill compiled caps
            \<and> length caps = length (filter (\<lambda>r. r = Seg) compiled))
       \<and> (\<forall>(name, v) \<in> set ps. \<forall>s. v = Some s \<longrightarrow> s \<noteq> [] \<and> CHR ''/'' \<notin> set s)"
proof -
  from assms obtain caps where e: "rx_exec compiled p = Some caps"
    and ps: "ps = assignParams (paramNames route) (map Some caps) []"
    by (auto simp: match_def onFragment_def split: option.splits)
  note s = rx_exec_sound [OF e]
  have "\<forall>(name, v) \<in> set ps. \<forall>s. v = Some s \<longrightarrow> s \<noteq> [] \<and> CHR ''/'' \<notin> set s"
  proof (clarify)
    fix name s assume "(name, Some s) \<in> set ps"
    then have "Some s \<in> set (map Some caps)"
      unfolding ps by (auto dest: assignParams_entries)
    then have "s \<in> set caps" by auto
    then show "s \<noteq> [] \<and> CHR ''/'' \<notin> set s" using s by blast
  qed
  then show ?thesis using e s by blast
qed

text \<open>
  C3 (code evaluated at the failing input, with any engine). The separators of the
  template are escaped before the parameter names are read, so the name of a parameter
  that is followed by a separator takes the escaping backslash with it: the template
  \<open>/users/:id/posts/:postId\<close> compiles with the parameter names \<open>id\\<close> and \<open>postId\<close>,
  and matching \<open>/users/1/posts/2\<close> returns a record with the value \<open>1\<close> under the key
  \<open>id\\<close> and nothing under the key \<open>id\<close>. The match itself is anchored: a path with
  a further segment, or with a separator inside a parameter position, does not match.
\<close>

theorem match_names_nonfinal_parameter_with_backslash:
  "map_sum id paramNames
     (new_Route (onFragment other) ''GET'' ''/users/:id/posts/:postId'' h)
     = Inr [''id'' @ [CHR 0x5C], ''postId'']
   \<and> (case new_Route (onFragment other) ''GET'' ''/users/:id/posts/:postId'' h of
         Inl e \<Rightarrow> None
       | Inr route \<Rightarrow> match (onFragment other) route ''/users/1/posts/2'')
     = Some [(''id'' @ [CHR 0x5C], Some ''1''), (''postId'', Some ''2'')]
   \<and> (case new_Route (onFragment other) ''GET'' ''/users/:id/posts/:postId'' h of
         Inl e \<Rightarrow> None
       | Inr route \<Rightarrow>
           map_option (\<lambda>ps. map_of ps ''id'')
             (match (onFragment other) route ''/users/1/posts/2''))
     = Some None
   \<and> (case new_Route (onFragment other) ''GET'' ''/users/:id/posts/:postId'' h of
         Inl e \<Rightarrow> None
       | Inr route \<Rightarrow> Some (match (onFragment other) route ''/users/1/posts/2/extra''))
     = Some None
   \<and> (case new_Route (onFragment other) ''GET'' ''/users/:id/posts/:postId'' h of
         Inl e \<Rightarrow> None
       | Inr route \<Rightarrow> Some (match (onFragment other) route ''/users/1/x/posts/2''))
     = Some None"
  by (simp add: route_defs)

section \<open>Router: first registration wins\<close>

lemma findRoute_SomeD:
  "findRoute E rs m p = Some (route, ps) \<Longrightarrow>
   \<exists>pre post. rs = pre @ route # post \<and> httpMethod route = m \<and> match E route p = Some ps
     \<and> (\<forall>r \<in> set pre. httpMethod r = m \<longrightarrow> match E r p = None)"
proof (induction rs)
  case Nil
  then show ?case by simp
next
  case (Cons r rs)
  show ?case
  proof (cases "httpMethod r = m \<and> match E r p \<noteq> None")
    case True
    then have "r = route" "match E r p = Some ps" using Cons.prems by auto
    then have "r # rs = [] @ route # rs \<and> httpMethod route = m \<and> match E route p = Some ps
       \<and> (\<forall>r \<in> set []. httpMethod r = m \<longrightarrow> match E r p = None)"
      using True by simp
    then show ?thesis by blast
  next
    case False
    then have "findRoute E rs m p = Some (route, ps)"
      using Cons.prems by (auto split: if_splits option.splits)
    from Cons.IH [OF this] obtain pre post where
      "rs = pre @ route # post" "httpMethod route = m" "match E route p = Some ps"
      "\<forall>r \<in> set pre. httpMethod r = m \<longrightarrow> match E r p = None"
      by blast
    then have "r # rs = (r # pre) @ route # post \<and> httpMethod route = m
       \<and> match E route p = Some ps
       \<and> (\<forall>r' \<in> set (r # pre). httpMethod r' = m \<longrightarrow> match E r' p = None)"
      using False by auto
    then show ?thesis by blast
  qed
qed

lemma findRoute_SomeI:
  "httpMethod route = m \<Longrightarrow> match E route p = Some ps \<Longrightarrow>
   \<forall>r \<in> set pre. httpMethod r = m \<longrightarrow> match E r p = None \<Longrightarrow>
   findRoute E (pre @ route # post) m p = Some (route, ps)"
  by (induction pre) auto

lemma findRoute_None_iff:
  "findRoute E rs m p = None \<longleftrightarrow> (\<forall>r \<in> set rs. httpMethod r = m \<longrightarrow> match E r p = None)"
  by (induction rs) (auto split: option.splits)

lemma new_Route_Inr_iff:
  "new_Route E m t h = Inr route \<longleftrightarrow>
   (\<exists>re names. createPattern E t = Inr (re, names)
      \<and> route = \<lparr> httpMethod = m, path = t, handler = h, pattern = re, paramNames = names \<rparr>)"
  by (auto simp: new_Route_def split: sum.splits)

lemma handle_resolves: "fst (handle E router request st) = Resolved ()"
  by (auto simp: handle_def split: prod.splits promise.splits)

lemma handle_handlerCalls:
  "handlerCalls (snd (handle E router request st))
     = handlerCalls (snd (if length (middlewares router) > 0 then
              executeMiddlewares E router request
                (map Registered (middlewares router) @ [Routing]) 0 st
            else executeRouting E router request st))"
  by (auto simp: handle_def Let_def split: prod.splits promise.splits)

lemma executeRouting_handlerCalls:
  "handlerCalls (snd (executeRouting E router request st))
     = handlerCalls st
       @ (case findRoute E (routes router) (req_method request) (req_path request) of
            Some (route, ps) \<Rightarrow> [(handler route, ps)]
          | None \<Rightarrow> [])"
  by (auto simp: executeRouting_def callHandler_def handle404_def
      split: option.splits prod.splits)

lemma runMiddleware_after_next:
  "handlerCalls (snd (runMiddleware k steps True st)) = handlerCalls st"
proof (induction steps arbitrary: st)
  case Nil
  then show ?case by simp
next
  case (Cons a steps)
  show ?case
  proof (cases a)
    case (Do e)
    then show ?thesis using Cons.IH by (cases e) simp_all
  next
    case CallNext
    then show ?thesis by simp
  qed
qed

lemma runMiddleware_callsNext:
  assumes k: "\<And>st. handlerCalls (snd (k st)) = handlerCalls st @ L"
    and "callsNext steps"
  shows "handlerCalls (snd (runMiddleware k steps False st)) = handlerCalls st @ L"
  using assms(2)
proof (induction steps arbitrary: st)
  case Nil
  then show ?case by simp
next
  case (Cons a steps)
  show ?case
  proof (cases a)
    case (Do e)
    then show ?thesis using Cons by (cases e) simp_all
  next
    case CallNext
    obtain r st1 where c: "k st = (r, st1)" by (cases "k st")
    then have "handlerCalls st1 = handlerCalls st @ L" using k [of st] by simp
    then show ?thesis using CallNext c
      by (cases r) (simp_all add: runMiddleware_after_next)
  qed
qed

lemma runMiddleware_no_call:
  assumes k: "\<And>st. handlerCalls (snd (k st)) = handlerCalls st"
  shows "handlerCalls (snd (runMiddleware k steps b st)) = handlerCalls st"
proof (induction steps arbitrary: st b)
  case Nil
  then show ?case by simp
next
  case (Cons a steps)
  show ?case
  proof (cases a)
    case (Do e)
    then show ?thesis using Cons by (cases e) simp_all
  next
    case CallNext
    obtain r st1 where c: "k st = (r, st1)" by (cases "k st")
    then have "handlerCalls st1 = handlerCalls st" using k [of st] by simp
    then show ?thesis using CallNext c Cons
      by (cases r) simp_all
  qed
qed

lemma executeChain_callsNext:
  assumes "list_all (\<lambda>mw. callsNext (mw request)) mws"
  shows "handlerCalls (snd (executeChain E router request (map Registered mws @ [Routing]) st))
     = handlerCalls st
       @ (case findRoute E (routes router) (req_method request) (req_path request) of
            Some (route, ps) \<Rightarrow> [(handler route, ps)]
          | None \<Rightarrow> [])"
  using assms
proof (induction mws arbitrary: st)
  case Nil
  then show ?case by (simp add: executeRouting_handlerCalls)
next
  case (Cons mw mws)
  then have "callsNext (mw request)" and r: "list_all (\<lambda>mw. callsNext (mw request)) mws"
    by simp_all
  then show ?case using Cons.IH [OF r]
    by (simp add: runMiddleware_callsNext)
qed

lemma executeChain_no_route:
  assumes "findRoute E (routes router) (req_method request) (req_path request) = None"
  shows "handlerCalls (snd (executeChain E router request (map Registered mws @ [Routing]) st))
     = handlerCalls st"
proof (induction mws arbitrary: st)
  case Nil
  then show ?case using assms by (simp add: executeRouting_handlerCalls)
next
  case (Cons mw mws)
  then show ?case by (simp add: runMiddleware_no_call)
qed

text \<open>
  What \<open>next()\<close> leaves of the promise it drops: the state, with the error of a
  rejection added to the unhandled ones.
\<close>

lemma executeChain_passThrough:
  assumes "mws \<noteq> []" and "list_all (\<lambda>mw. mw request = [CallNext]) mws"
  shows "executeChain E router request (map Registered mws @ [Routing]) st
     = (Resolved (),
        case executeRouting E router request st of
          (Resolved u, st1) \<Rightarrow> st1
        | (Rejected e, st1) \<Rightarrow> st1\<lparr>unhandledRejections := unhandledRejections st1 @ [e]\<rparr>)"
  using assms
proof (induction mws arbitrary: st)
  case Nil
  then show ?case by simp
next
  case (Cons mw mws)
  then have m: "mw request = [CallNext]" by simp
  show ?case
  proof (cases "mws = []")
    case True
    then show ?thesis using m
      by (cases "executeRouting E router request st")
         (auto split: promise.splits)
  next
    case False
    moreover have "list_all (\<lambda>mw. mw request = [CallNext]) mws" using Cons.prems by simp
    ultimately have "executeChain E router request (map Registered mws @ [Routing]) st
     = (Resolved (),
        case executeRouting E router request st of
          (Resolved u, st1) \<Rightarrow> st1
        | (Rejected e, st1) \<Rightarrow> st1\<lparr>unhandledRejections := unhandledRejections st1 @ [e]\<rparr>)"
      by (rule Cons.IH)
    then show ?thesis using m by simp
  qed
qed

text \<open>
  C2, for every regular expression engine and so for every template. Registering a
  (method, template) pair again is accepted whenever the first registration was:
  \<open>addRoute\<close> looks at no earlier registration, it throws only what the constructor
  throws for the template, and otherwise appends. \<open>findRoute\<close> returns a registration
  with its parameters exactly when that registration has the request method and
  matches the path and no registration before it in the list does. \<open>executeRouting\<close>
  then calls the handler of that registration with those parameters. \<open>handle\<close> makes
  exactly that one handler call when no middleware is registered and also through any
  chain of middlewares each of which calls \<open>next()\<close>; it makes no handler call when no
  registration matches. Behind middlewares that do nothing but call \<open>next()\<close>, the
  response is the one \<open>executeRouting\<close> leaves, so the handler has run on it.
\<close>

theorem findRoute_first_registered_wins:
  "(addRoute E m t h router = Inr router1 \<longrightarrow>
      (\<exists>route2. addRoute E m t h2 router1
         = Inr (router1\<lparr>routes := routes router1 @ [route2]\<rparr>)
         \<and> httpMethod route2 = m \<and> path route2 = t \<and> handler route2 = h2))
   \<and> (\<forall>e. addRoute E m t h router = Inl e \<longleftrightarrow> new_Route E m t h = Inl e)
   \<and> (findRoute E (routes router) m p = Some (route, ps) \<longleftrightarrow>
        (\<exists>pre post. routes router = pre @ route # post
           \<and> httpMethod route = m \<and> match E route p = Some ps
           \<and> (\<forall>r \<in> set pre. httpMethod r = m \<longrightarrow> match E r p = None)))
   \<and> (findRoute E (routes router) (req_method request) (req_path request) = Some (route, ps) \<longrightarrow>
        executeRouting E router request st
          = (case run_effects (handler route request ps) (res st) of
               (r, response') \<Rightarrow>
                 (r, st\<lparr> res := response',
                         handlerCalls := handlerCalls st @ [(handler route, ps)] \<rparr>))
        \<and> (list_all (\<lambda>mw. callsNext (mw request)) (middlewares router) \<longrightarrow>
             handlerCalls (snd (handle E router request st))
               = handlerCalls st @ [(handler route, ps)])
        \<and> (middlewares router = []
             \<and> fst (run_effects (handler route request ps) (res st)) = Resolved () \<longrightarrow>
           handle E router request st
             = (Resolved (),
                st\<lparr> res := snd (run_effects (handler route request ps) (res st)),
                     handlerCalls := handlerCalls st @ [(handler route, ps)] \<rparr>)))
   \<and> (findRoute E (routes router) (req_method request) (req_path request) = None \<longrightarrow>
        handlerCalls (snd (handle E router request st)) = handlerCalls st)
   \<and> (middlewares router \<noteq> []
        \<and> list_all (\<lambda>mw. mw request = [CallNext]) (middlewares router) \<longrightarrow>
        handle E router request st
          = (Resolved (),
             case executeRouting E router request st of
               (Resolved u, st1) \<Rightarrow> st1
             | (Rejected e, st1) \<Rightarrow>
                 st1\<lparr>unhandledRejections := unhandledRejections st1 @ [e]\<rparr>))
   \<and> fst (handle E router request st) = Resolved ()"
proof (intro conjI impI allI)
  assume "addRoute E m t h router = Inr router1"
  then obtain route where "new_Route E m t h = Inr route"
    by (auto simp: addRoute_def split: sum.splits)
  then obtain re names where "createPattern E t = Inr (re, names)"
    by (auto simp: new_Route_Inr_iff)
  then have "new_Route E m t h2
      = Inr \<lparr> httpMethod = m, path = t, handler = h2, pattern = re, paramNames = names \<rparr>"
    by (simp add: new_Route_def)
  then have "addRoute E m t h2 router1
         = Inr (router1\<lparr>routes := routes router1
              @ [\<lparr> httpMethod = m, path = t, handler = h2, pattern = re,
                   paramNames = names \<rparr>]\<rparr>)"
    by (simp add: addRoute_def)
  then show "\<exists>route2. addRoute E m t h2 router1
         = Inr (router1\<lparr>routes := routes router1 @ [route2]\<rparr>)
         \<and> httpMethod route2 = m \<and> path route2 = t \<and> handler route2 = h2"
    by (intro exI [of _ "\<lparr> httpMethod = m, path = t, handler = h2, pattern = re,
                   paramNames = names \<rparr>"]) simp
next
  fix e
  show "addRoute E m t h router = Inl e \<longleftrightarrow> new_Route E m t h = Inl e"
    by (auto simp: addRoute_def split: sum.splits)
next
  show "findRoute E (routes router) m p = Some (route, ps) \<longleftrightarrow>
        (\<exists>pre post. routes router = pre @ route # post
           \<and> httpMethod route = m \<and> match E route p = Some ps
           \<and> (\<forall>r \<in> set pre. httpMethod r = m \<longrightarrow> match E r p = None))"
  proof
    assume "findRoute E (routes router) m p = Some (route, ps)"
    then show "\<exists>pre post. routes router = pre @ route # post
           \<and> httpMethod route = m \<and> match E route p = Some ps
           \<and> (\<forall>r \<in> set pre. httpMethod r = m \<longrightarrow> match E r p = None)"
      by (rule findRoute_SomeD)
  next
    assume "\<exists>pre post. routes router = pre @ route # post
           \<and> httpMethod route = m \<and> match E route p = Some ps
           \<and> (\<forall>r \<in> set pre. httpMethod r = m \<longrightarrow> match E r p = None)"
    then obtain pre post where "routes router = pre @ route # post"
      "httpMethod route = m" "match E route p = Some ps"
      "\<forall>r \<in> set pre. httpMethod r = m \<longrightarrow> match E r p = None"
      by blast
    then show "findRoute E (routes router) m p = Some (route, ps)"
      using findRoute_SomeI [of route m E p ps pre post] by simp
  qed
next
  assume f: "findRoute E (routes router) (req_method request) (req_path request)
               = Some (route, ps)"
  then show e: "executeRouting E router request st
          = (case run_effects (handler route request ps) (res st) of
               (r, response') \<Rightarrow>
                 (r, st\<lparr> res := response',
                         handlerCalls := handlerCalls st @ [(handler route, ps)] \<rparr>))"
    by (simp add: executeRouting_def callHandler_def)
  {
    assume c: "list_all (\<lambda>mw. callsNext (mw request)) (middlewares router)"
    show "handlerCalls (snd (handle E router request st))
               = handlerCalls st @ [(handler route, ps)]"
      using f executeChain_callsNext [OF c, of E router st]
      by (simp add: handle_handlerCalls executeMiddlewares_def executeRouting_handlerCalls)
  }
  assume "middlewares router = []
             \<and> fst (run_effects (handler route request ps) (res st)) = Resolved ()"
  then show "handle E router request st
             = (Resolved (),
                st\<lparr> res := snd (run_effects (handler route request ps) (res st)),
                     handlerCalls := handlerCalls st @ [(handler route, ps)] \<rparr>)"
    using e by (auto simp: handle_def split: prod.splits)
next
  assume f: "findRoute E (routes router) (req_method request) (req_path request) = None"
  show "handlerCalls (snd (handle E router request st)) = handlerCalls st"
    using f executeChain_no_route [OF f, of "middlewares router" st]
    by (simp add: handle_handlerCalls executeMiddlewares_def executeRouting_handlerCalls)
next
  assume "middlewares router \<noteq> []
        \<and> list_all (\<lambda>mw. mw request = [CallNext]) (middlewares router)"
  then show "handle E router request st
          = (Resolved (),
             case executeRouting E router request st of
               (Resolved u, st1) \<Rightarrow> st1
             | (Rejected e, st1) \<Rightarrow>
                 st1\<lparr>unhandledRejections := unhandledRejections st1 @ [e]\<rparr>)"
    by (simp add: handle_def executeMiddlewares_def executeChain_passThrough)
next
  show "fst (handle E router request st) = Resolved ()"
    by (rule handle_resolves)
qed

lemma new_Route_usersById:
  "new_Route (onFragment noEngine) ''GET'' ''/users/:id'' (echoParams ''byId'') = Inr usersById"
  by (simp add: route_defs usersById_def)

lemma new_Route_usersByName:
  "new_Route (onFragment noEngine) ''GET'' ''/users/:name'' (echoParams ''byName'')
     = Inr usersByName"
  by (simp add: route_defs usersByName_def)

lemma match_usersById:
  "match (onFragment noEngine) usersById ''/users/7'' = Some [(''id'', Some ''7'')]"
  by (simp add: match_def onFragment_def usersById_def setProperty_def isArrayIndex_def)

lemma match_usersByName:
  "match (onFragment noEngine) usersByName ''/users/7'' = Some [(''name'', Some ''7'')]"
  by (simp add: match_def onFragment_def usersByName_def setProperty_def isArrayIndex_def)

lemma match_users_nothing:
  "match (onFragment noEngine) usersById ''/nothing'' = None"
  "match (onFragment noEngine) usersByName ''/nothing'' = None"
  by (simp_all add: match_def onFragment_def usersById_def usersByName_def)

theorem findRoute_first_registered_wins_witness:
  "addRoute (onFragment noEngine) ''GET'' ''/users/:id'' (echoParams ''byId'') newRouter
     = Inr \<lparr> routes = [usersById], middlewares = [] \<rparr>
   \<and> addRoute (onFragment noEngine) ''GET'' ''/users/:id'' (echoParams ''again'')
       \<lparr> routes = [usersById], middlewares = [] \<rparr>
     = Inr \<lparr> routes = [usersById, usersById\<lparr>handler := echoParams ''again''\<rparr>],
             middlewares = [] \<rparr>
   \<and> findRoute (onFragment noEngine) [usersById, usersByName] ''GET'' ''/users/7''
     = Some (usersById, [(''id'', Some ''7'')])
   \<and> findRoute (onFragment noEngine) [usersByName, usersById] ''GET'' ''/users/7''
     = Some (usersByName, [(''name'', Some ''7'')])
   \<and> list_all (\<lambda>mw. callsNext (mw (GET ''/users/7''))) [passThrough]
   \<and> handlerCalls (snd (handle (onFragment noEngine)
         \<lparr> routes = [usersById, usersByName], middlewares = [passThrough] \<rparr>
         (GET ''/users/7'') st0))
     = [(echoParams ''byId'', [(''id'', Some ''7'')])]
   \<and> handlerCalls (snd (handle (onFragment noEngine)
         \<lparr> routes = [usersByName, usersById], middlewares = [passThrough] \<rparr>
         (GET ''/users/7'') st0))
     = [(echoParams ''byName'', [(''name'', Some ''7'')])]
   \<and> raw_body (res (snd (handle (onFragment noEngine)
         \<lparr> routes = [usersById, usersByName], middlewares = [] \<rparr> (GET ''/users/7'') st0)))
     = Some (Text ''byId id=7'')
   \<and> raw_body (res (snd (handle (onFragment noEngine)
         \<lparr> routes = [usersByName, usersById], middlewares = [] \<rparr> (GET ''/users/7'') st0)))
     = Some (Text ''byName name=7'')
   \<and> raw_body (res (snd (handle (onFragment noEngine)
         \<lparr> routes = [usersById, usersByName], middlewares = [passThrough] \<rparr>
         (GET ''/users/7'') st0)))
     = Some (Text ''byId id=7'')
   \<and> handlerCalls (snd (handle (onFragment noEngine)
         \<lparr> routes = [usersById, usersByName], middlewares = [passThrough] \<rparr>
         (GET ''/nothing'') st0))
     = []"
proof -
  let ?E = "onFragment noEngine"
  let ?r1 = "\<lparr> routes = [usersById], middlewares = [] \<rparr> :: (rx list + unit) Router"
  let ?ab = "\<lparr> routes = [usersById, usersByName], middlewares = [] \<rparr>"
  let ?ba = "\<lparr> routes = [usersByName, usersById], middlewares = [] \<rparr>"
  let ?abm = "\<lparr> routes = [usersById, usersByName], middlewares = [passThrough] \<rparr>"
  let ?bam = "\<lparr> routes = [usersByName, usersById], middlewares = [passThrough] \<rparr>"
  let ?id = "[(''id'', Some ''7'')]"
  let ?name = "[(''name'', Some ''7'')]"
  note T = findRoute_first_registered_wins
  have a1: "addRoute ?E ''GET'' ''/users/:id'' (echoParams ''byId'') newRouter = Inr ?r1"
    by (simp add: addRoute_def new_Route_usersById newRouter_def)
  from T [where E = ?E and m = "''GET''" and t = "''/users/:id''"
        and h = "echoParams ''byId''" and router = newRouter and ?router1.0 = ?r1
        and ?h2.0 = "echoParams ''again''", THEN conjunct1] a1
  obtain route2 where r2: "addRoute ?E ''GET'' ''/users/:id'' (echoParams ''again'') ?r1
       = Inr (?r1\<lparr>routes := routes ?r1 @ [route2]\<rparr>)"
    by blast
  moreover have "new_Route ?E ''GET'' ''/users/:id'' (echoParams ''again'')
                   = Inr (usersById\<lparr>handler := echoParams ''again''\<rparr>)"
    by (simp add: route_defs usersById_def)
  ultimately have "route2 = usersById\<lparr>handler := echoParams ''again''\<rparr>"
    by (simp add: addRoute_def)
  with r2 have a2: "addRoute ?E ''GET'' ''/users/:id'' (echoParams ''again'') ?r1
     = Inr \<lparr> routes = [usersById, usersById\<lparr>handler := echoParams ''again''\<rparr>],
             middlewares = [] \<rparr>"
    by simp
  have f1: "findRoute ?E (routes ?abm) ''GET'' ''/users/7'' = Some (usersById, ?id)"
    using T [where E = ?E and router = ?abm and m = "''GET''" and p = "''/users/7''"
          and route = usersById and ps = ?id,
          THEN conjunct2, THEN conjunct2, THEN conjunct1]
      match_usersById
    by (simp add: usersById_def)
  have f2: "findRoute ?E (routes ?bam) ''GET'' ''/users/7'' = Some (usersByName, ?name)"
    using T [where E = ?E and router = ?bam and m = "''GET''" and p = "''/users/7''"
          and route = usersByName and ps = ?name,
          THEN conjunct2, THEN conjunct2, THEN conjunct1]
      match_usersByName
    by (simp add: usersByName_def)
  have c: "list_all (\<lambda>mw. callsNext (mw (GET ''/users/7''))) [passThrough]"
    by (simp add: passThrough_def)
  have h1: "handlerCalls (snd (handle ?E ?abm (GET ''/users/7'') st0))
              = handlerCalls st0 @ [(handler usersById, ?id)]"
    using T [where E = ?E and router = ?abm and request = "GET ''/users/7''"
          and route = usersById and ps = ?id and st = st0,
          THEN conjunct2, THEN conjunct2, THEN conjunct2, THEN conjunct1] f1 c
    by (simp add: GET_def)
  have h2: "handlerCalls (snd (handle ?E ?bam (GET ''/users/7'') st0))
              = handlerCalls st0 @ [(handler usersByName, ?name)]"
    using T [where E = ?E and router = ?bam and request = "GET ''/users/7''"
          and route = usersByName and ps = ?name and st = st0,
          THEN conjunct2, THEN conjunct2, THEN conjunct2, THEN conjunct1] f2 c
    by (simp add: GET_def)
  have g1: "handle ?E ?ab (GET ''/users/7'') st0
      = (Resolved (),
         st0\<lparr> res := snd (run_effects (handler usersById (GET ''/users/7'') ?id) (res st0)),
              handlerCalls := handlerCalls st0 @ [(handler usersById, ?id)] \<rparr>)"
    using T [where E = ?E and router = ?ab and request = "GET ''/users/7''"
          and route = usersById and ps = ?id and st = st0,
          THEN conjunct2, THEN conjunct2, THEN conjunct2, THEN conjunct1] f1
    by (simp add: GET_def usersById_def echoParams_def)
  have g2: "handle ?E ?ba (GET ''/users/7'') st0
      = (Resolved (),
         st0\<lparr> res := snd (run_effects (handler usersByName (GET ''/users/7'') ?name) (res st0)),
              handlerCalls := handlerCalls st0 @ [(handler usersByName, ?name)] \<rparr>)"
    using T [where E = ?E and router = ?ba and request = "GET ''/users/7''"
          and route = usersByName and ps = ?name and st = st0,
          THEN conjunct2, THEN conjunct2, THEN conjunct2, THEN conjunct1] f2
    by (simp add: GET_def usersByName_def echoParams_def)
  have b1: "raw_body (res (snd (handle ?E ?ab (GET ''/users/7'') st0)))
              = Some (Text ''byId id=7'')"
    unfolding g1 by (simp add: usersById_def echoParams_def st0_def response_defs)
  have b2: "raw_body (res (snd (handle ?E ?ba (GET ''/users/7'') st0)))
              = Some (Text ''byName name=7'')"
    unfolding g2 by (simp add: usersByName_def echoParams_def st0_def response_defs)
  have "httpMethod usersById = ''GET''" "httpMethod usersByName = ''GET''"
    by (simp_all add: usersById_def usersByName_def)
  then have "findRoute ?E (routes ?abm) (req_method (GET ''/nothing''))
               (req_path (GET ''/nothing'')) = None"
    by (simp add: GET_def match_users_nothing)
  from T [where E = ?E and router = ?abm and request = "GET ''/nothing''" and st = st0,
        THEN conjunct2, THEN conjunct2, THEN conjunct2, THEN conjunct2, THEN conjunct1]
    this
  have n: "handlerCalls (snd (handle ?E ?abm (GET ''/nothing'') st0)) = handlerCalls st0"
    by blast
  have "middlewares ?abm \<noteq> []
      \<and> list_all (\<lambda>mw. mw (GET ''/users/7'') = [CallNext]) (middlewares ?abm)"
    by (simp add: passThrough_def)
  from T [where E = ?E and router = ?abm and request = "GET ''/users/7''" and st = st0,
        THEN conjunct2, THEN conjunct2, THEN conjunct2, THEN conjunct2, THEN conjunct2,
        THEN conjunct1] this
  have g3: "handle ?E ?abm (GET ''/users/7'') st0
      = (Resolved (),
         case executeRouting ?E ?abm (GET ''/users/7'') st0 of
           (Resolved u, st1) \<Rightarrow> st1
         | (Rejected e, st1) \<Rightarrow>
             st1\<lparr>unhandledRejections := unhandledRejections st1 @ [e]\<rparr>)"
    by blast
  have x: "executeRouting ?E ?abm (GET ''/users/7'') st0
      = (case run_effects (handler usersById (GET ''/users/7'') ?id) (res st0) of
           (r, response') \<Rightarrow>
             (r, st0\<lparr> res := response',
                      handlerCalls := handlerCalls st0 @ [(handler usersById, ?id)] \<rparr>))"
    using T [where E = ?E and router = ?abm and request = "GET ''/users/7''"
          and route = usersById and ps = ?id and st = st0,
          THEN conjunct2, THEN conjunct2, THEN conjunct2, THEN conjunct1] f1
    by (simp add: GET_def)
  have b3: "raw_body (res (snd (handle ?E ?abm (GET ''/users/7'') st0)))
              = Some (Text ''byId id=7'')"
    unfolding g3 x by (simp add: usersById_def echoParams_def st0_def response_defs)
  show ?thesis
    using a1 a2 f1 f2 c h1 h2 b1 b2 b3 n by (simp add: st0_def usersById_def usersByName_def)
qed

section \<open>Router: errors of handlers and middlewares\<close>

text \<open>
  C5 (code evaluated at the failing input, with any engine). One middleware that only
  calls \<open>next()\<close> is registered, and a handler that throws. \<open>next()\<close> starts the rest
  of the chain and drops its promise, so the handler's error rejects a promise nobody
  awaits: \<open>handle\<close> resolves, the handler was called, the response is still untouched
  (no 500 was sent), and the error is an unhandled rejection. Without the middleware
  the same error is caught by \<open>handle\<close> and answered with status 500.
\<close>

theorem handle_behind_middleware_loses_handler_error:
  "(case addRoute (onFragment other) ''GET'' ''/boom'' throwingHandler newRouter of
      Inl e \<Rightarrow> None
    | Inr router \<Rightarrow>
        Some (handle (onFragment other) (use passThrough router) (GET ''/boom'') st0))
     = Some (Resolved (),
             \<lparr> res = newResponse, unhandledRejections = [Error ''boom''],
               handlerCalls = [(throwingHandler, [])] \<rparr>)
   \<and> finished newResponse = False
   \<and> (case addRoute (onFragment other) ''GET'' ''/boom'' throwingHandler newRouter of
        Inl e \<Rightarrow> None
      | Inr router \<Rightarrow>
          Some (raw_statusCode (res (snd (handle (onFragment other) router (GET ''/boom'') st0))),
                raw_body (res (snd (handle (onFragment other) router (GET ''/boom'') st0))),
                unhandledRejections
                  (snd (handle (onFragment other) router (GET ''/boom'') st0))))
     = Some (500, Some (Text ''Internal Server Error''), [])"
  by (simp add: handle_def executeMiddlewares_def executeRouting_def callHandler_def
      addRoute_def use_def newRouter_def passThrough_def throwingHandler_def st0_def GET_def
      route_defs response_defs)

end
